theory Spec2Isabelle
  imports Complex_Main
begin

section \<open>JavaScript strings\<close>

text \<open>
  A JavaScript string is a sequence of UTF-16 code units; \<open>.length\<close> counts code units.
  The sources mention code units above 255 (the glyphs U+201E and U+2026 in
  \<open>sanitizeForTTS\<close>), so a code unit is a natural number and a string is a list of them.
  \<open>js\<close> turns an ASCII literal into such a string.
\<close>

type_synonym jsstring = "nat list"

definition js :: "string \<Rightarrow> jsstring" where
  "js s = map of_char s"

text \<open>The class \<open>\s\<close> of a JavaScript regular expression (white space and line terminators);
  \<open>String.prototype.trim\<close> strips the same set.\<close>

definition is_space :: "nat \<Rightarrow> bool" where
  "is_space c \<longleftrightarrow>
     c = 9 \<or> c = 10 \<or> c = 11 \<or> c = 12 \<or> c = 13 \<or> c = 32 \<or> c = 160 \<or> c = 5760 \<or>
     (8192 \<le> c \<and> c \<le> 8202) \<or> c = 8232 \<or> c = 8233 \<or> c = 8239 \<or> c = 8287 \<or>
     c = 12288 \<or> c = 65279"

text \<open>The class \<open>\w\<close>: \<open>[A-Za-z0-9_]\<close>.\<close>

definition is_word :: "nat \<Rightarrow> bool" where
  "is_word c \<longleftrightarrow> (65 \<le> c \<and> c \<le> 90) \<or> (97 \<le> c \<and> c \<le> 122) \<or> (48 \<le> c \<and> c \<le> 57) \<or> c = 95"

definition is_alpha :: "nat \<Rightarrow> bool" where
  "is_alpha c \<longleftrightarrow> (65 \<le> c \<and> c \<le> 90) \<or> (97 \<le> c \<and> c \<le> 122)"

definition trim :: "jsstring \<Rightarrow> jsstring" where
  "trim s = rev (dropWhile is_space (rev (dropWhile is_space s)))"

text \<open>Case folding of one code unit under the \<open>i\<close> flag, restricted to what the ASCII patterns
  of this program can see: \<open>A-Z\<close> and \<open>a-z\<close> are identified, and a code unit outside ASCII is
  never identified with an ASCII one (the canonicalisation of ECMAScript keeps it apart).\<close>

definition lower_ascii :: "nat \<Rightarrow> nat" where
  "lower_ascii c = (if 65 \<le> c \<and> c \<le> 90 then c + 32 else c)"

text \<open>\<open>s.startsWith(p)\<close>, and its variant under the \<open>i\<close> flag for a lower-case ASCII pattern.\<close>

definition starts_with :: "jsstring \<Rightarrow> jsstring \<Rightarrow> bool" where
  "starts_with p s \<longleftrightarrow> take (length p) s = p"

definition starts_with_ci :: "jsstring \<Rightarrow> jsstring \<Rightarrow> bool" where
  "starts_with_ci p s \<longleftrightarrow> map lower_ascii (take (length p) s) = p"

text \<open>\<open>s.includes(p)\<close>.\<close>

fun js_includes :: "jsstring \<Rightarrow> jsstring \<Rightarrow> bool" where
  "js_includes p [] \<longleftrightarrow> p = []"
| "js_includes p (c # cs) \<longleftrightarrow> starts_with p (c # cs) \<or> js_includes p cs"

text \<open>\<open>xs.join(sep)\<close> on an array of strings.\<close>

fun join :: "jsstring \<Rightarrow> jsstring list \<Rightarrow> jsstring" where
  "join sep [] = []"
| "join sep [x] = x"
| "join sep (x # y # ys) = x @ sep @ join sep (y # ys)"

text \<open>\<open>s.replace(/\s+/g, " ")\<close>: every maximal run of white space becomes one space.\<close>

function collapse_ws :: "jsstring \<Rightarrow> jsstring" where
  "collapse_ws [] = []"
| "collapse_ws (c # cs) =
     (if is_space c then 32 # collapse_ws (dropWhile is_space cs) else c # collapse_ws cs)"
  by pat_completeness auto
termination
  by (relation "measure length") (auto simp: length_dropWhile_le less_Suc_eq_le)

text \<open>\<open>s.replace(/\*\*/g, '')\<close>: leftmost, non-overlapping pairs of asterisks are deleted.\<close>

fun remove_double_star :: "jsstring \<Rightarrow> jsstring" where
  "remove_double_star (a # b # cs) =
     (if a = 42 \<and> b = 42 then remove_double_star cs else a # remove_double_star (b # cs))"
| "remove_double_star cs = cs"

text \<open>\<open>s.replace(/^Gyaanchand:\s*/i, '')\<close>: the assistant's name and a colon at the very start,
  in any letter case, with the white space that follows.\<close>

definition strip_name_prefix :: "jsstring \<Rightarrow> jsstring" where
  "strip_name_prefix s =
     (if starts_with_ci (js ''gyaanchand:'') s then dropWhile is_space (drop 11 s) else s)"

subsection \<open>\<open>String.prototype.split\<close> with a regular expression\<close>

text \<open>
  A separator pattern is given by its matcher: from the code unit before the position (for a
  look-behind) and the rest of the string, the length of the match that starts at the position.
  \<open>split\<close> scans from the start of the current piece; where the pattern matches it closes the
  piece and resumes behind the match; at the end of the string it pushes the last piece.
  No separator of this program matches the empty string, so a match of length 0 is not a match
  here.
\<close>

type_synonym matcher = "nat option \<Rightarrow> jsstring \<Rightarrow> nat option"

function split_loop :: "matcher \<Rightarrow> jsstring \<Rightarrow> nat option \<Rightarrow> jsstring \<Rightarrow> jsstring list" where
  "split_loop m piece prev [] = [piece]"
| "split_loop m piece prev (c # cs) =
     (case m prev (c # cs) of
        None \<Rightarrow> split_loop m (piece @ [c]) (Some c) cs
      | Some n \<Rightarrow>
          if n = 0 then split_loop m (piece @ [c]) (Some c) cs
          else piece # split_loop m [] (Some (last (take n (c # cs)))) (drop n (c # cs)))"
  by pat_completeness auto
termination
  by (relation "measure (\<lambda>(m, piece, prev, s). length s)") auto

definition split_rx :: "matcher \<Rightarrow> jsstring \<Rightarrow> jsstring list" where
  "split_rx m s = split_loop m [] None s"

text \<open>\<open>\s+\<close> at the start of a string: the length of the maximal run, if it is not empty.\<close>

definition ws_run :: "jsstring \<Rightarrow> nat option" where
  "ws_run s = (let n = length (takeWhile is_space s) in if n = 0 then None else Some n)"

text \<open>\<open>/(?<=[.!?])\s+/\<close>: white space behind a full stop, an exclamation or a question mark.\<close>

definition sentence_sep :: matcher where
  "sentence_sep prev s =
     (if prev = Some 46 \<or> prev = Some 33 \<or> prev = Some 63 then ws_run s else None)"

text \<open>A literal followed by \<open>\s+\<close>, and \<open>\s+\<close>, a literal, \<open>\s+\<close>. The greedy \<open>\s+\<close> takes the whole
  run: giving a code unit back leaves a white space where the literal or the end of the
  pattern has to follow, so backtracking finds no other match.\<close>

definition lit_ws :: "jsstring \<Rightarrow> jsstring \<Rightarrow> nat option" where
  "lit_ws p s =
     (if starts_with p s then
        (case ws_run (drop (length p) s) of None \<Rightarrow> None | Some n \<Rightarrow> Some (length p + n))
      else None)"

definition ws_lit_ws :: "jsstring \<Rightarrow> jsstring \<Rightarrow> nat option" where
  "ws_lit_ws p s =
     (case ws_run s of
        None \<Rightarrow> None
      | Some a \<Rightarrow> (case lit_ws p (drop a s) of None \<Rightarrow> None | Some n \<Rightarrow> Some (a + n)))"

text \<open>\<open>/,\s+|;\s+|\s+and\s+|\s+but\s+/\<close>: the alternatives are tried in this order.\<close>

definition clause_sep :: matcher where
  "clause_sep prev s =
     (case lit_ws (js '','') s of Some n \<Rightarrow> Some n | None \<Rightarrow>
      (case lit_ws (js '';'') s of Some n \<Rightarrow> Some n | None \<Rightarrow>
      (case ws_lit_ws (js ''and'') s of Some n \<Rightarrow> Some n | None \<Rightarrow>
       ws_lit_ws (js ''but'') s)))"

section \<open>Chunker (\<open>backend/ttsStreamSentences.js\<close>)\<close>

text \<open>\<open>sanitizeForTTS\<close>, one \<open>let\<close> per statement of the source. The first two character
  classes are written as they stand in the file: \<open>["\<guillemotleft>\<guillemotright>\<bdquo>]\<close> (code units 34, 171, 187,
  8222) and \<open>[']\<close> (39).\<close>

definition sanitizeForTTS :: "jsstring \<Rightarrow> jsstring" where
  "sanitizeForTTS text =
     (if text = [] then []
      else
        let t1 = map (\<lambda>c. if c = 34 \<or> c = 171 \<or> c = 187 \<or> c = 8222 then 34 else c) text;
            t2 = map (\<lambda>c. if c = 39 then 39 else c) t1;
            t3 = concat (map (\<lambda>c. if c = 8230 then js ''...'' else [c]) t2);
            t4 = remove_double_star t3;
            t5 = filter (\<lambda>c. c \<noteq> 96) t4;
            t6 = strip_name_prefix t5;
            t7 = trim (collapse_ws t6);
            t8 = filter (\<lambda>c. \<not> (c \<le> 31 \<or> c = 127)) t7
        in t8)"

text \<open>The state of the chunking loops: the chunks pushed so far and the running chunk
  \<open>current\<close>.\<close>

type_synonym chunker = "jsstring list \<times> jsstring"

text \<open>The body of the inner loop, over the parts of a long sentence.\<close>

definition add_part :: "chunker \<Rightarrow> jsstring \<Rightarrow> chunker" where
  "add_part st p =
     (case st of (chunks, current) \<Rightarrow>
        if length (trim (current @ js '' '' @ p)) \<le> 150
        then (chunks, if current \<noteq> [] then current @ js '' '' @ p else p)
        else (if current \<noteq> [] then chunks @ [current] else chunks, p))"

text \<open>The body of the outer loop, over the sentences. When the candidate is too long the
  running chunk is pushed, and \<open>current\<close> keeps its value on the way into the inner loop.\<close>

definition add_sentence :: "chunker \<Rightarrow> jsstring \<Rightarrow> chunker" where
  "add_sentence st s =
     (case st of (chunks, current) \<Rightarrow>
        let candidate = (if current \<noteq> [] then current @ js '' '' @ s else s) in
        if length candidate \<le> 150 then (chunks, candidate)
        else
          let chunks1 = (if current \<noteq> [] then chunks @ [current] else chunks) in
          if length s \<le> 150 then (chunks1, s)
          else foldl add_part (chunks1, current) (split_rx clause_sep s))"

definition splitIntoChunks :: "jsstring \<Rightarrow> jsstring list" where
  "splitIntoChunks text0 =
     (let text = sanitizeForTTS text0 in
      if text = [] then []
      else
        let sentences = filter (\<lambda>s. s \<noteq> []) (split_rx sentence_sep text) in
        (case foldl add_sentence ([], []) sentences of (chunks, current) \<Rightarrow>
           if current \<noteq> [] then chunks @ [current] else chunks))"

section \<open>Errors and client messages\<close>

text \<open>A thrown JavaScript error: its \<open>name\<close> and \<open>message\<close>, and what \<open>axios.isCancel\<close> answers
  for it. The handlers of this program look at nothing else.\<close>

record js_error =
  err_name :: jsstring
  err_message :: jsstring
  err_cancel :: bool

text \<open>What the server sends on the client's web socket: the JSON messages by their \<open>type\<close>,
  and binary audio.\<close>

datatype client_msg =
    Status jsstring
  | Transcript jsstring bool
  | Reply jsstring
  | StopAudio
  | TtsEnd
  | ErrorMsg jsstring
  | MemoryUpdate "jsstring option" "(jsstring \<times> jsstring) list"
  | VoiceChanged jsstring
  | Audio "nat list"

section \<open>Synthesis streamer (\<open>backend/ttsStreamSentences.js\<close>)\<close>

text \<open>
  What the surroundings decide while \<open>murfStreamSentences\<close> runs, by the index of the chunk:
  whether the abort signal is set at the head of the loop and again after the audio has been
  generated, what the request to the synthesis service gives (for the \<open>voice_id\<close> and the text
  sent; \<open>None\<close> is an \<open>undefined\<close> \<open>voice_id\<close>), whether the client's socket is open when the
  audio is to be sent, and whether it is open after the loop.
\<close>

record stream_env =
  aborted_before :: "nat \<Rightarrow> bool"
  murf_api :: "nat \<Rightarrow> jsstring option \<Rightarrow> jsstring \<Rightarrow> js_error + nat list"
  aborted_after :: "nat \<Rightarrow> bool"
  ws_open :: "nat \<Rightarrow> bool"
  ws_open_end :: bool

definition VOICE_CONFIGS :: "jsstring list" where
  "VOICE_CONFIGS = map js [''en-US-terrell'', ''en-US-michael'', ''en-US-wayne'', ''en-US-ryan'',
     ''en-US-natalie'', ''en-US-lily'', ''en-US-claire'', ''en-GB-william'', ''en-GB-emma'']"

text \<open>
  \<open>VOICE_CONFIGS\<close> is an object literal, so \<open>VOICE_CONFIGS[voiceId]\<close> also finds the members that
  every object inherits from \<open>Object.prototype\<close> (the names below, as Node has them). Such a
  member is truthy, so the default voice is not taken, and it has no \<open>id\<close> (nor \<open>style\<close>,
  \<open>speed\<close>, \<open>pitch\<close>, \<open>variation\<close>, which are the same for the nine voices): the request goes
  out with \<open>voice_id\<close> undefined.
\<close>

definition OBJECT_PROTOTYPE_KEYS :: "jsstring list" where
  "OBJECT_PROTOTYPE_KEYS = map js [''constructor'', ''__defineGetter__'', ''__defineSetter__'',
     ''hasOwnProperty'', ''__lookupGetter__'', ''__lookupSetter__'', ''isPrototypeOf'',
     ''propertyIsEnumerable'', ''toString'', ''valueOf'', ''__proto__'', ''toLocaleString'']"

text \<open>\<open>generateChunkTTS\<close>: \<open>config = VOICE_CONFIGS[voiceId] || VOICE_CONFIGS['en-US-terrell']\<close> and
  the request with \<open>config.id\<close>; the request itself is the surroundings' answer, an error is
  thrown on.\<close>

definition generateChunkTTS ::
  "stream_env \<Rightarrow> nat \<Rightarrow> jsstring \<Rightarrow> jsstring \<Rightarrow> js_error + nat list" where
  "generateChunkTTS env i text voiceId =
     (let config_id = (if voiceId \<in> set VOICE_CONFIGS then Some voiceId
                       else if voiceId \<in> set OBJECT_PROTOTYPE_KEYS then None
                       else Some (js ''en-US-terrell''))
      in murf_api env i config_id text)"

text \<open>The loop over the chunks: the messages sent, and the flag \<open>interrupted\<close>.\<close>

fun stream_loop ::
  "stream_env \<Rightarrow> jsstring \<Rightarrow> nat \<Rightarrow> jsstring list \<Rightarrow> client_msg list \<times> bool" where
  "stream_loop env voiceId i [] = ([], False)"
| "stream_loop env voiceId i (chunk # rest) =
     (if aborted_before env i then ([], True)
      else
        (case generateChunkTTS env i chunk voiceId of
           Inl err \<Rightarrow>
             if err_cancel err then ([], True) else stream_loop env voiceId (i + 1) rest
         | Inr audioBuffer \<Rightarrow>
             if aborted_after env i then ([], True)
             else if ws_open env i then
               (case stream_loop env voiceId (i + 1) rest of
                  (sent, interrupted) \<Rightarrow> (Audio audioBuffer # sent, interrupted))
             else ([], False)))"

text \<open>\<open>murfStreamSentences(text, ws, opts)\<close> for a string \<open>text\<close>: the messages it sends to
  \<open>ws\<close> before it resolves, in order, and whether it has armed the timer that sends the end
  marker 150 ms later (after the call has resolved, so after what the caller sends next).
  \<open>opts.voiceId\<close> is \<open>None\<close> when the caller gives none.\<close>

definition murfStreamSentences ::
  "stream_env \<Rightarrow> jsstring \<Rightarrow> jsstring option \<Rightarrow> client_msg list \<times> bool" where
  "murfStreamSentences env text0 opts_voiceId =
     (let voiceId = (case opts_voiceId of None \<Rightarrow> js ''en-US-terrell''
                     | Some v \<Rightarrow> if v = [] then js ''en-US-terrell'' else v)
      in
      if text0 = [] \<or> trim text0 = [] then ([], False)
      else
        let text = sanitizeForTTS text0;
            chunks = splitIntoChunks text
        in
        if length chunks = 0 then ([], False)
        else
          (case stream_loop env voiceId 0 chunks of
             (sent, interrupted) \<Rightarrow> (sent, ws_open_end env \<and> \<not> interrupted)))"

section \<open>Cache (\<open>backend/intelligentRouter.js\<close>)\<close>

text \<open>\<open>responseCache\<close> is a JavaScript \<open>Map\<close>: it keeps its keys in insertion order, so it is an
  association list with the operations of \<open>Map\<close>. Times are milliseconds.\<close>

record cache_entry =
  response :: jsstring
  timestamp :: int

type_synonym cache = "(jsstring \<times> cache_entry) list"

definition CACHE_TTL :: int where
  "CACHE_TTL = 5 * 60 * 1000"

definition MAX_CACHE_SIZE :: nat where
  "MAX_CACHE_SIZE = 100"

definition map_get :: "cache \<Rightarrow> jsstring \<Rightarrow> cache_entry option" where
  "map_get c k = map_of c k"

definition map_delete :: "cache \<Rightarrow> jsstring \<Rightarrow> cache" where
  "map_delete c k = filter (\<lambda>kv. fst kv \<noteq> k) c"

definition map_set :: "cache \<Rightarrow> jsstring \<Rightarrow> cache_entry \<Rightarrow> cache" where
  "map_set c k v =
     (if k \<in> fst ` set c then map (\<lambda>kv. if fst kv = k then (k, v) else kv) c else c @ [(k, v)])"

definition map_size :: "cache \<Rightarrow> nat" where
  "map_size c = length c"

text \<open>\<open>String.prototype.toLowerCase\<close>, as far as \<open>getCacheKey\<close> can tell: \<open>A-Z\<close> go to \<open>a-z\<close>, the
  Kelvin sign U+212A goes to \<open>k\<close> and U+0130 to \<open>i\<close> followed by U+0307. Every other code unit
  outside ASCII goes to code units outside ASCII that are white space only if it is, and
  the \<open>replace\<close> that follows deletes them either way, so they are left as they are.\<close>

definition toLowerCase :: "jsstring \<Rightarrow> jsstring" where
  "toLowerCase s =
     concat (map (\<lambda>c. if 65 \<le> c \<and> c \<le> 90 then [c + 32]
                      else if c = 8490 then [107]
                      else if c = 304 then [105, 775]
                      else [c]) s)"

text \<open>\<open>getCacheKey\<close>. The MD5 digest in hexadecimal comes from Node's \<open>crypto\<close> module and is a
  parameter. \<open>memoryContext\<close> is a parameter of the source function too.\<close>

definition getCacheKey ::
  "(jsstring \<Rightarrow> jsstring) \<Rightarrow> jsstring \<Rightarrow> jsstring \<Rightarrow> bool \<Rightarrow> jsstring" where
  "getCacheKey md5_hex text memoryContext hasDocument =
     (let normalized = filter (\<lambda>c. is_word c \<or> is_space c) (trim (toLowerCase text));
          hash = md5_hex (normalized @ (if hasDocument then js ''doc'' else js ''no-doc''))
      in take 16 hash)"

text \<open>\<open>getCachedResponse\<close> at the time \<open>now\<close>: the answer (\<open>None\<close> for \<open>null\<close>) and the cache, from
  which an expired entry has been deleted.\<close>

definition getCachedResponse :: "cache \<Rightarrow> int \<Rightarrow> jsstring \<Rightarrow> jsstring option \<times> cache" where
  "getCachedResponse c now key =
     (case map_get c key of
        Some cached \<Rightarrow>
          if now - timestamp cached < CACHE_TTL then (Some (response cached), c)
          else (None, map_delete c key)
      | None \<Rightarrow> (None, c))"

text \<open>\<open>setCachedResponse\<close> at the time \<open>now\<close>. At capacity the source computes \<open>firstKey\<close> and
  then calls \<open>responseCache.delete(key)\<close>.\<close>

definition setCachedResponse :: "cache \<Rightarrow> int \<Rightarrow> jsstring \<Rightarrow> jsstring \<Rightarrow> cache" where
  "setCachedResponse c now key resp =
     (let c1 = (if map_size c \<ge> MAX_CACHE_SIZE
                then (let firstKey = map_option fst (case c of [] \<Rightarrow> None | kv # _ \<Rightarrow> Some kv)
                      in map_delete c key)
                else c)
      in map_set c1 key \<lparr>response = resp, timestamp = now\<rparr>)"

text \<open>The periodic clean-up, run from a timer every minute.\<close>

definition cache_cleanup :: "cache \<Rightarrow> int \<Rightarrow> cache" where
  "cache_cleanup c now = filter (\<lambda>kv. \<not> (now - timestamp (snd kv) > CACHE_TTL)) c"

section \<open>Regular expressions tested with \<open>RegExp.prototype.test\<close>\<close>

text \<open>
  \<open>test\<close> only asks whether some match exists, so the order of alternatives and greediness
  play no part. The patterns of \<open>classifyIntent\<close> are built from lower-case ASCII literals
  under the \<open>i\<close> flag, \<open>\s+\<close>, \<open>.*\<close>, optional groups and alternatives. \<open>Chr p\<close> matches a code unit
  whose ASCII lower case is \<open>p\<close>; \<open>Space\<close> is \<open>\s\<close>; \<open>Dot\<close> is \<open>.\<close>, any code unit but a line
  terminator. \<open>Many u\<close> is \<open>u*\<close> for such a one-unit pattern.
\<close>

datatype unit_rx = Chr nat | Space | Dot

datatype rx = Null | Eps | One unit_rx | Many unit_rx | Seq rx rx | Alt rx rx

fun unit_ok :: "unit_rx \<Rightarrow> nat \<Rightarrow> bool" where
  "unit_ok (Chr p) c \<longleftrightarrow> lower_ascii c = p"
| "unit_ok Space c \<longleftrightarrow> is_space c"
| "unit_ok Dot c \<longleftrightarrow> \<not> (c = 10 \<or> c = 13 \<or> c = 8232 \<or> c = 8233)"

text \<open>The rests of the string behind a run of zero or more units.\<close>

fun many :: "unit_rx \<Rightarrow> jsstring \<Rightarrow> jsstring list" where
  "many u [] = [[]]"
| "many u (c # cs) = (c # cs) # (if unit_ok u c then many u cs else [])"

text \<open>The rests of the string behind the matches of a pattern that start at its first code
  unit.\<close>

fun rx_match :: "rx \<Rightarrow> jsstring \<Rightarrow> jsstring list" where
  "rx_match Null s = []"
| "rx_match Eps s = [s]"
| "rx_match (One u) [] = []"
| "rx_match (One u) (c # cs) = (if unit_ok u c then [cs] else [])"
| "rx_match (Many u) s = many u s"
| "rx_match (Seq r1 r2) s = concat (map (rx_match r2) (rx_match r1 s))"
| "rx_match (Alt r1 r2) s = rx_match r1 s @ rx_match r2 s"

text \<open>A match that starts at the first code unit (a pattern anchored with \<open>^\<close>), and a match
  anywhere.\<close>

definition rx_prefix :: "rx \<Rightarrow> jsstring \<Rightarrow> bool" where
  "rx_prefix r s \<longleftrightarrow> rx_match r s \<noteq> []"

fun rx_test :: "rx \<Rightarrow> jsstring \<Rightarrow> bool" where
  "rx_test r [] \<longleftrightarrow> rx_prefix r []"
| "rx_test r (c # cs) \<longleftrightarrow> rx_prefix r (c # cs) \<or> rx_test r cs"

definition lit :: "string \<Rightarrow> rx" where
  "lit s = foldr (\<lambda>c r. Seq (One (Chr (of_char c))) r) s Eps"

definition plus :: "unit_rx \<Rightarrow> rx" where
  "plus u = Seq (One u) (Many u)"

definition opt :: "rx \<Rightarrow> rx" where
  "opt r = Alt r Eps"

definition seqs :: "rx list \<Rightarrow> rx" where
  "seqs rs = foldr Seq rs Eps"

definition alts :: "rx list \<Rightarrow> rx" where
  "alts rs = foldr Alt rs Null"

section \<open>Backend router (\<open>backend/intelligentRouter.js\<close>)\<close>

datatype intent_type = IEmail | ICalendar | IDocument | IGreeting | IGeneral

datatype complexity = CSimple | CMedium | CComplex

record intent =
  itype :: intent_type
  icomplexity :: complexity

text \<open>The patterns of \<open>classifyIntent\<close>, in the order of the source.\<close>

definition rx_email :: rx where
  "rx_email = alts
     [seqs [lit ''send'', plus Space, opt (seqs [lit ''a'', opt (lit ''n''), plus Space]),
            lit ''email''],
      seqs [lit ''email'', plus Space, lit ''to''],
      seqs [lit ''compose'', plus Space, lit ''email''],
      seqs [lit ''mail'', plus Space, opt (Alt (lit ''my'') (lit ''the''))]]"

definition rx_calendar :: rx where
  "rx_calendar = alts
     [lit ''schedule'', lit ''calendar'', lit ''meeting'', lit ''appointment'', lit ''event'',
      seqs [lit ''book'', plus Space, opt (seqs [lit ''a'', plus Space]), lit ''date''],
      seqs [lit ''set'', plus Space, opt (seqs [lit ''a'', plus Space]), lit ''reminder'']]"

definition rx_document :: rx where
  "rx_document = alts
     [lit ''analyze'', lit ''summarize'', lit ''extract'',
      seqs [lit ''tell'', Many Dot, lit ''about'', Many Dot, lit ''document''],
      seqs [lit ''what'', Many Dot, lit ''document''],
      seqs [lit ''document'', Many Dot, lit ''about''],
      lit ''pdf'',
      seqs [lit ''explain'', Many Dot, lit ''pdf'']]"

definition rx_greeting :: rx where
  "rx_greeting = alts
     [lit ''hi'', lit ''hey'', lit ''hello'', lit ''what's up'', lit ''how are you'',
      lit ''good morning'', lit ''good evening'', lit ''who are you'',
      lit ''what is your name'', lit ''my name is'']"

definition rx_not_simple :: rx where
  "rx_not_simple = alts
     [lit ''explain'', lit ''compare'', lit ''analyze'', lit ''why'', lit ''how does'',
      lit ''detail'']"

definition rx_complex_a :: rx where
  "rx_complex_a = alts
     [seqs [lit ''explain'', Many Dot, lit ''detail''], lit ''compare'', lit ''analyze'',
      seqs [lit ''what'', Many Dot, lit ''difference''],
      seqs [lit ''step'', Many Dot, lit ''step''],
      lit ''detailed'', lit ''comprehensive'', lit ''thorough'']"

definition rx_complex_b :: rx where
  "rx_complex_b = alts [lit ''tell me about'', lit ''describe'', lit ''what is'', lit ''how does'']"

definition rx_complex_c :: rx where
  "rx_complex_c = alts [lit ''code'', lit ''program'', lit ''algorithm'', lit ''implement'']"

definition rx_file_words :: rx where
  "rx_file_words = alts [lit ''document'', lit ''pdf'', lit ''file'']"

definition classifyIntent :: "jsstring \<Rightarrow> intent" where
  "classifyIntent text =
     (if rx_test rx_email text then \<lparr>itype = IEmail, icomplexity = CComplex\<rparr>
      else if rx_test rx_calendar text then \<lparr>itype = ICalendar, icomplexity = CComplex\<rparr>
      else if rx_test rx_document text then \<lparr>itype = IDocument, icomplexity = CComplex\<rparr>
      else if rx_prefix rx_greeting text then \<lparr>itype = IGreeting, icomplexity = CSimple\<rparr>
      else if length text < 50 \<and> \<not> rx_test rx_not_simple text
        then \<lparr>itype = IGeneral, icomplexity = CSimple\<rparr>
      else if length text > 100 \<or> rx_test rx_complex_a text \<or> rx_test rx_complex_b text
              \<or> rx_test rx_complex_c text
        then \<lparr>itype = IGeneral, icomplexity = CComplex\<rparr>
      else \<lparr>itype = IGeneral, icomplexity = CMedium\<rparr>)"

definition basePrompt :: jsstring where
  \<open>basePrompt =
     js ''You are Gyaanchand, a sophisticated voice assistant created by Umer Zingu.\<newline>'' @
     js ''\<newline>'' @
     js ''IDENTITY & TECHNOLOGY:\<newline>'' @
     js ''- Your name is Gyaanchand\<newline>'' @
     js ''- Created by Umer Zingu\<newline>'' @
     js ''- Voice: Murf AI - "The Fastest, Most Efficient Text-to-Speech API for Building Voice Agents"\<newline>'' @
     js ''- Hearing: Deepgram - Best-in-class speech recognition\<newline>'' @
     js ''- Intelligence: Google Gemini and Groq's Llama 3.3 70B models\<newline>'' @
     js ''\<newline>'' @
     js ''RESPONSE LENGTH RULES (CRITICAL):\<newline>'' @
     js ''- Greetings/simple: 20-40 words (2-3 sentences)\<newline>'' @
     js ''- Medium queries: 60-100 words (4-6 sentences)\<newline>'' @
     js ''- Complex explanations: 120-180 words (8-12 sentences)\<newline>'' @
     js ''- Document analysis: 80-120 words (5-8 sentences with key facts)\<newline>'' @
     js ''- Technical topics: 150-200 words (10-14 sentences with structure)\<newline>'' @
     js ''\<newline>'' @
     js ''VOICE-OPTIMIZED SPEAKING STYLE:\<newline>'' @
     [9989] @
     js '' Clear structure with smooth transitions\<newline>'' @
     [9989] @
     js '' Natural, conversational tone\<newline>'' @
     [9989] @
     js '' Use "Here's the thing", "Let me explain", "So basically"\<newline>'' @
     [9989] @
     js '' Short sentences (8-15 words) for easy listening\<newline>'' @
     [9989] @
     js '' Reference memory naturally: "You mentioned...", "Like we discussed..."\<newline>'' @
     [10060] @
     js '' Never: "As an AI...", robotic phrases\<newline>'' @
     js ''\<newline>'' @
     js ''STRUCTURED RESPONSES:\<newline>'' @
     js ''For complex topics, use this format:\<newline>'' @
     js ''1. Brief intro (1 sentence)\<newline>'' @
     js ''2. Main explanation (3-5 sentences)\<newline>'' @
     js ''3. Key points or examples (2-4 sentences)\<newline>'' @
     js ''4. Brief summary or conclusion (1 sentence)\<newline>'' @
     js ''\<newline>'' @
     js ''BE CONVERSATIONAL:\<newline>'' @
     js ''- Use contractions naturally\<newline>'' @
     js ''- Show personality while staying professional\<newline>'' @
     js ''- Remember context from conversation\<newline>'' @
     js ''- Give complete, helpful answers''\<close>

definition getSystemPrompt :: "intent \<Rightarrow> bool \<Rightarrow> bool \<Rightarrow> jsstring" where
  "getSystemPrompt intent hasMemory hasDocument =
     (if itype intent = IGreeting then
        basePrompt @ js ''\<newline>\<newline>For greetings: Keep it brief (20-30 words) but warm and welcoming.''
      else if itype intent = IEmail \<or> itype intent = ICalendar then
        basePrompt @ js ''\<newline>\<newline>For email/calendar requests: Confirm the action clearly and ask for any missing details.''
      else if hasDocument then
        basePrompt @ js ''\<newline>\<newline>Document context provided. Extract key facts and provide structured analysis with specific details.''
      else if icomplexity intent = CComplex then
        basePrompt @ js ''\<newline>\<newline>Complex query detected. Provide thorough, well-structured explanation with clear transitions between points.''
      else basePrompt)"

text \<open>\<open>s.split(c)\<close> with a one-character string as the separator.\<close>

fun split_char :: "nat \<Rightarrow> jsstring \<Rightarrow> jsstring list" where
  "split_char sep [] = [[]]"
| "split_char sep (c # cs) =
     (case split_char sep cs of
        [] \<Rightarrow> (if c = sep then [[], []] else [[c]])
      | piece # pieces \<Rightarrow> if c = sep then [] # piece # pieces else (c # piece) # pieces)"

text \<open>The body of the loop of \<open>buildMemoryContext\<close> over the lines.\<close>

definition add_line :: "jsstring list \<Rightarrow> jsstring \<Rightarrow> jsstring list" where
  "add_line compacted line =
     (if js_includes (js ''User's name:'') line \<or> js_includes (js ''Topic:'') line
        then compacted @ [line]
      else if js_includes (js ''Recent'') line \<and> length compacted < 3 then
        (let pieces = split_char 124 line;
             messages = join (js ''|'') (drop (length pieces - 3) pieces)
         in compacted @ [take 200 messages])
      else compacted)"

definition buildMemoryContext :: "jsstring \<Rightarrow> jsstring" where
  "buildMemoryContext memoryContext =
     (if memoryContext = [] \<or> length memoryContext < 10 then []
      else
        let lines = filter (\<lambda>l. trim l \<noteq> []) (split_char 10 memoryContext);
            compacted = foldl add_line [] lines
        in take 250 (join (js ''\<newline>'') compacted))"

text \<open>
  The reasoning backends are services outside the program. Each is given by what its request
  answers: the text of the reply, or the error thrown (the error of an aborted request
  included, so the abort signal handed to the request is part of these answers). The two
  readings of the clock are the ones in \<open>getCachedResponse\<close> and in \<open>setCachedResponse\<close>.
\<close>

record route_env =
  md5_hex :: "jsstring \<Rightarrow> jsstring"
  gemini_flash :: "jsstring \<Rightarrow> js_error + jsstring"
  gemini_pro :: "jsstring \<Rightarrow> js_error + jsstring"
  groq_chat :: "jsstring \<Rightarrow> jsstring \<Rightarrow> js_error + jsstring"
  now_lookup :: int
  now_store :: int

datatype backend = GeminiFlash | GeminiPro | Groq

definition callGeminiFlash :: "route_env \<Rightarrow> jsstring \<Rightarrow> jsstring \<Rightarrow> js_error + jsstring" where
  "callGeminiFlash env prompt systemPrompt =
     (case gemini_flash env (systemPrompt @ js ''\<newline>\<newline>'' @ prompt) of
        Inl error \<Rightarrow> Inl error
      | Inr text \<Rightarrow> Inr (trim text))"

definition callGeminiPro :: "route_env \<Rightarrow> jsstring \<Rightarrow> jsstring \<Rightarrow> js_error + jsstring" where
  "callGeminiPro env prompt systemPrompt =
     (case gemini_pro env (systemPrompt @ js ''\<newline>\<newline>'' @ prompt) of
        Inl error \<Rightarrow> Inl error
      | Inr text \<Rightarrow> Inr (trim text))"

definition callGroq :: "route_env \<Rightarrow> jsstring \<Rightarrow> jsstring \<Rightarrow> js_error + jsstring" where
  "callGroq env prompt systemPrompt =
     (case groq_chat env systemPrompt prompt of
        Inl error \<Rightarrow> Inl error
      | Inr content \<Rightarrow> Inr (trim content))"

definition call_backend ::
  "route_env \<Rightarrow> backend \<Rightarrow> jsstring \<Rightarrow> jsstring \<Rightarrow> js_error + jsstring" where
  "call_backend env b prompt systemPrompt =
     (case b of
        GeminiFlash \<Rightarrow> callGeminiFlash env prompt systemPrompt
      | GeminiPro \<Rightarrow> callGeminiPro env prompt systemPrompt
      | Groq \<Rightarrow> callGroq env prompt systemPrompt)"

text \<open>The five branches of \<open>routeRequest\<close> differ in the backend tried first and in the prompt.
  \<open>documentContent\<close> is \<open>None\<close> for \<open>null\<close>; an empty string is falsy like \<open>null\<close>.\<close>

definition truthy :: "jsstring option \<Rightarrow> bool" where
  "truthy v = (case v of None \<Rightarrow> False | Some s \<Rightarrow> s \<noteq> [])"

definition context_prefix :: "jsstring \<Rightarrow> jsstring" where
  "context_prefix compactMemory =
     (if compactMemory \<noteq> [] then js ''Context: '' @ compactMemory @ js ''\<newline>\<newline>'' else [])"

definition document_mode :: "intent \<Rightarrow> jsstring \<Rightarrow> jsstring option \<Rightarrow> bool" where
  "document_mode intent text documentContent \<longleftrightarrow>
     truthy documentContent \<and> (itype intent = IDocument \<or> rx_test rx_file_words text)"

definition primary_backend :: "intent \<Rightarrow> jsstring \<Rightarrow> jsstring option \<Rightarrow> backend" where
  "primary_backend intent text documentContent =
     (if document_mode intent text documentContent then GeminiPro
      else if itype intent = IGreeting then GeminiFlash
      else if icomplexity intent = CSimple then GeminiFlash
      else if icomplexity intent = CMedium then GeminiPro
      else GeminiPro)"

definition finalPrompt :: "intent \<Rightarrow> jsstring \<Rightarrow> jsstring \<Rightarrow> jsstring option \<Rightarrow> jsstring" where
  "finalPrompt intent text compactMemory documentContent =
     (if document_mode intent text documentContent then
        context_prefix compactMemory @ js ''Document content (first 3000 chars):\<newline>'' @
        take 3000 (the documentContent) @
        js ''\<newline>\<newline>Question: '' @ text @
        js ''\<newline>\<newline>Provide a structured response (80-120 words, 5-8 sentences) with specific facts from the document.''
      else if itype intent = IGreeting then
        context_prefix compactMemory @ js ''User: '' @ text @
        js ''\<newline>\<newline>Respond warmly in 20-40 words (2-3 sentences).''
      else if icomplexity intent = CSimple then
        context_prefix compactMemory @ js ''User: '' @ text @
        js ''\<newline>\<newline>Answer clearly in 40-70 words (3-4 sentences).''
      else if icomplexity intent = CMedium then
        context_prefix compactMemory @ js ''User: '' @ text @
        js ''\<newline>\<newline>Provide a helpful response in 70-110 words (5-7 sentences).''
      else
        context_prefix compactMemory @ js ''User: '' @ text @
        js ''\<newline>\<newline>Provide a thorough, well-structured response in 120-180 words (8-12 sentences). Use clear transitions and organize information logically.'')"

definition apology :: jsstring where
  "apology = js ''I'm having trouble processing that right now. Could you try asking again?''"

definition is_abort :: "js_error \<Rightarrow> bool" where
  "is_abort e \<longleftrightarrow> err_name e = js ''AbortError''"

text \<open>
  \<open>routeRequest\<close>: what the call resolves to (\<open>Inl\<close> for a rejection), the cache afterwards, and
  the backends invoked, in order. Every branch of the source has the same shape: the first
  backend inside \<open>try\<close>; in its \<open>catch\<close> an \<open>AbortError\<close> is thrown on and any other error leads
  to \<open>callGroq\<close>; the outer \<open>catch\<close> throws an \<open>AbortError\<close> on and turns any other error into
  the fixed apology.
\<close>

definition routeRequest ::
  "route_env \<Rightarrow> cache \<Rightarrow> jsstring \<Rightarrow> jsstring \<Rightarrow> jsstring option \<Rightarrow>
     (js_error + jsstring) \<times> cache \<times> backend list" where
  "routeRequest env c text memoryContext documentContent =
     (let intent = classifyIntent text;
          cacheKey = getCacheKey (md5_hex env) text memoryContext (truthy documentContent)
      in
      (case getCachedResponse c (now_lookup env) cacheKey of (cachedResponse, c1) \<Rightarrow>
         if truthy cachedResponse then (Inr (the cachedResponse), c1, [])
         else
           let compactMemory = buildMemoryContext memoryContext;
               systemPrompt = getSystemPrompt intent (compactMemory \<noteq> []) (truthy documentContent);
               prompt = finalPrompt intent text compactMemory documentContent;
               first = primary_backend intent text documentContent;
               finish = (\<lambda>resp calls.
                  let cleanResponse = trim (strip_name_prefix resp)
                  in (Inr cleanResponse,
                      setCachedResponse c1 (now_store env) cacheKey cleanResponse, calls))
           in
           (case call_backend env first prompt systemPrompt of
              Inr resp \<Rightarrow> finish resp [first]
            | Inl err \<Rightarrow>
                if is_abort err then (Inl err, c1, [first])
                else
                  (case callGroq env prompt systemPrompt of
                     Inr resp \<Rightarrow> finish resp [first, Groq]
                   | Inl error \<Rightarrow>
                       if is_abort error then (Inl error, c1, [first, Groq])
                       else (Inr apology, c1, [first, Groq])))))"

section \<open>Turn controller (\<open>openDeepgramSocket\<close> of the production server)\<close>

text \<open>The session memory of a connection.\<close>

record session_memory =
  userName :: "jsstring option"
  lastUserMessages :: "jsstring list"
  lastBotMessages :: "jsstring list"

text \<open>An armed debounce timer. Every \<open>setTimeout\<close> gives a new timer, so timers are numbered.\<close>

record timer =
  timer_id :: nat
  timer_text :: jsstring
  timer_delay :: nat

text \<open>
  The variables that the closures of \<open>openDeepgramSocket\<close> share, with the client's socket as
  the list of messages sent on it so far. An \<open>AbortController\<close> is a number; \<open>aborted\<close> lists the
  controllers whose \<open>abort()\<close> has been called. \<open>transcriptTimeout\<close> is the timer that is armed,
  if one is (\<open>clearTimeout\<close> and the timer's firing disarm it). \<open>session_document\<close> and
  \<open>session_voiceId\<close> are \<open>session?.document?.content\<close> and \<open>session?.voiceId\<close> of the entry of
  \<open>sessionData\<close> for this connection.
\<close>

record conn =
  processingAudio :: bool
  isOpen :: bool
  transcriptTimeout :: "timer option"
  timers_made :: nat
  currentTTSController :: "nat option"
  controllers_made :: nat
  aborted :: "nat list"
  memory :: session_memory
  sink :: "client_msg list"
  session_document :: "jsstring option"
  session_voiceId :: "jsstring option"

text \<open>A \<open>Results\<close> message of the recogniser that has a first alternative, after the defaults
  of the handler (\<open>|| ""\<close>, \<open>|| false\<close>, \<open>|| 0\<close>) have been applied. The confidence is a double;
  the record holds its value, a rational number. The handlers compare it with the literals
  \<open>0.5\<close>, which is a double, and \<open>0.9\<close>, which stands for the double nearest to it.\<close>

record results =
  transcript :: jsstring
  is_final :: bool
  speech_final :: bool
  confidence :: rat

definition HIGH_CONFIDENCE :: rat where
  "HIGH_CONFIDENCE = 8106479329266893 / 9007199254740992"

definition send :: "conn \<Rightarrow> client_msg \<Rightarrow> conn" where
  "send st m = st\<lparr>sink := sink st @ [m]\<rparr>"

text \<open>\<open>push\<close> of a truthy message on a list of the memory, which keeps its last four.\<close>

definition remember :: "jsstring list \<Rightarrow> jsstring \<Rightarrow> jsstring list" where
  "remember msgs m =
     (if m = [] then msgs
      else let pushed = msgs @ [m] in if length pushed > 4 then tl pushed else pushed)"

definition updateMemory :: "conn \<Rightarrow> jsstring \<Rightarrow> jsstring \<Rightarrow> conn" where
  "updateMemory st userMsg botMsg =
     (let users = remember (lastUserMessages (memory st)) userMsg;
          bots = remember (lastBotMessages (memory st)) botMsg;
          st1 = st\<lparr>memory := (memory st)\<lparr>lastUserMessages := users, lastBotMessages := bots\<rparr>\<rparr>;
          recent = drop (length users - 3) users;
          history = map (\<lambda>(i, msg). (msg, if i < length bots then bots ! i else []))
                      (enumerate 0 recent)
      in send st1 (MemoryUpdate (userName (memory st1)) history))"

text \<open>\<open>transcript.match(/(?:my name is|i am|i'm|call me)\s+([A-Za-z]+)/i)\<close>: the first group of
  the leftmost match. At one position the alternatives are tried in order; \<open>\s+\<close> and
  \<open>[A-Za-z]+\<close> take their whole runs.\<close>

definition name_after :: "jsstring \<Rightarrow> jsstring \<Rightarrow> jsstring option" where
  "name_after p s =
     (if starts_with_ci p s then
        (let rest = drop (length p) s;
             letters = takeWhile is_alpha (dropWhile is_space rest)
         in if takeWhile is_space rest = [] \<or> letters = [] then None else Some letters)
      else None)"

definition name_here :: "jsstring \<Rightarrow> jsstring option" where
  "name_here s =
     (case name_after (js ''my name is'') s of Some n \<Rightarrow> Some n | None \<Rightarrow>
      (case name_after (js ''i am'') s of Some n \<Rightarrow> Some n | None \<Rightarrow>
      (case name_after (js ''i'm'') s of Some n \<Rightarrow> Some n | None \<Rightarrow>
       name_after (js ''call me'') s)))"

fun nameMatch :: "jsstring \<Rightarrow> jsstring option" where
  "nameMatch [] = None"
| "nameMatch (c # cs) =
     (case name_here (c # cs) of Some n \<Rightarrow> Some n | None \<Rightarrow> nameMatch cs)"

text \<open>The interrupt at the head of the message handler.\<close>

definition interrupt :: "conn \<Rightarrow> conn" where
  "interrupt st =
     (let st1 = (case currentTTSController st of
                   Some c \<Rightarrow> st\<lparr>aborted := aborted st @ [c], currentTTSController := None\<rparr>
                 | None \<Rightarrow> st);
          st2 = send st1 StopAudio
      in st2\<lparr>processingAudio := False\<rparr>)"

definition shouldProcess :: "results \<Rightarrow> bool" where
  "shouldProcess ev \<longleftrightarrow>
     speech_final ev \<or> length (transcript ev) > 8 \<or> js_includes (js ''?'') (transcript ev) \<or>
     confidence ev > HIGH_CONFIDENCE"

text \<open>The handler of a \<open>Results\<close> message, \<open>dgWs.on("message", ...)\<close>.\<close>

definition onResults :: "conn \<Rightarrow> results \<Rightarrow> conn" where
  "onResults st0 ev =
     (if \<not> isOpen st0 then st0
      else
        let st = (if processingAudio st0 \<and> \<not> is_final ev \<and> length (transcript ev) > 2
                  then interrupt st0 else st0)
        in
        if confidence ev < 1 / 2 \<and> length (transcript ev) < 3 then st
        else if trim (transcript ev) = [] then st
        else if \<not> is_final ev then send st (Transcript (transcript ev) False)
        else if length (trim (transcript ev)) > 1 then
          (let st1 = st\<lparr>transcriptTimeout := None\<rparr>;
               st2 = send st1 (Transcript (transcript ev) True);
               st3 = (case nameMatch (transcript ev) of
                        Some n \<Rightarrow>
                          if length n > 2 then st2\<lparr>memory := (memory st2)\<lparr>userName := Some n\<rparr>\<rparr>
                          else st2
                      | None \<Rightarrow> st2)
           in
           if shouldProcess ev \<and> \<not> processingAudio st3 then
             st3\<lparr>transcriptTimeout :=
                    Some \<lparr>timer_id = timers_made st3, timer_text = transcript ev,
                          timer_delay = (if speech_final ev then 100 else 400)\<rparr>,
                  timers_made := Suc (timers_made st3)\<rparr>
           else st3)
        else st)"

text \<open>
  The timer's callback is an \<open>async\<close> function. It runs in pieces, one from each \<open>await\<close> to the
  next, and handlers of other events run between the pieces. \<open>turn\<close> holds the variables the
  pieces share; \<open>pending\<close> says which call a piece has left pending.
\<close>

record turn =
  turn_transcript :: jsstring
  turn_memoryContext :: jsstring
  turn_documentContent :: "jsstring option"

datatype pending =
    CallAction jsstring
  | CallRoute jsstring jsstring "jsstring option" nat
  | CallTTS jsstring nat "jsstring option"
  | Finished

definition memoryContext_of :: "session_memory \<Rightarrow> jsstring" where
  "memoryContext_of m =
     (if truthy (userName m) then js ''User: '' @ the (userName m) @ js ''\<newline>'' else []) @
     (if length (lastUserMessages m) \<noteq> 0 then
        (let recent = join (js '' | '') (drop (length (lastUserMessages m) - 2) (lastUserMessages m))
         in js ''Recent: '' @ take 150 recent @ js ''\<newline>'')
      else [])"

text \<open>First piece: the armed timer fires, up to \<open>await handleAction(transcript, transcript)\<close>.\<close>

definition timer_fires :: "conn \<Rightarrow> conn \<times> turn option \<times> pending" where
  "timer_fires st0 =
     (case transcriptTimeout st0 of
        None \<Rightarrow> (st0, None, Finished)
      | Some tm \<Rightarrow>
          let st = st0\<lparr>transcriptTimeout := None\<rparr> in
          if processingAudio st then (st, None, Finished)
          else
            let st1 = send (st\<lparr>processingAudio := True\<rparr>) (Status (js ''Thinking...''));
                documentContent =
                  (if truthy (session_document st1) then session_document st1 else None);
                t = \<lparr>turn_transcript = timer_text tm,
                     turn_memoryContext = memoryContext_of (memory st1),
                     turn_documentContent = documentContent\<rparr>
            in (st1, Some t, CallAction (timer_text tm)))"

text \<open>The \<open>catch\<close> block of the callback.\<close>

definition turn_failed :: "conn \<Rightarrow> js_error \<Rightarrow> conn" where
  "turn_failed st err =
     (let st1 = (if is_abort err then st
                 else send st (ErrorMsg (js ''Processing error: '' @ err_message err)));
          st2 = send st1 (Status (js ''Listening...''))
      in st2\<lparr>processingAudio := False, currentTTSController := None\<rparr>)"

definition new_controller :: "conn \<Rightarrow> conn \<times> nat" where
  "new_controller st =
     (st\<lparr>currentTTSController := Some (controllers_made st),
          controllers_made := Suc (controllers_made st)\<rparr>, controllers_made st)"

text \<open>Second piece: \<open>handleAction\<close> has settled, with the message of its result (\<open>None\<close> for
  \<open>null\<close>) or with an error. \<open>handleAction\<close> and the services it calls are collaborators of the
  pipeline, so its outcome is given.\<close>

definition after_action :: "conn \<Rightarrow> turn \<Rightarrow> js_error + jsstring option \<Rightarrow> conn \<times> pending" where
  "after_action st t actionResult =
     (case actionResult of
        Inl err \<Rightarrow> (turn_failed st err, Finished)
      | Inr (Some message) \<Rightarrow>
          (let st1 = send st (Reply message);
               st2 = send st1 (Status (js ''Speaking...''));
               st3 = updateMemory st2 (turn_transcript t) message
           in (case new_controller st3 of (st4, c) \<Rightarrow>
                 (st4, CallTTS message c (session_voiceId st4))))
      | Inr None \<Rightarrow>
          (case new_controller st of (st1, c) \<Rightarrow>
             (st1, CallRoute (turn_transcript t) (turn_memoryContext t)
                     (turn_documentContent t) c)))"

text \<open>The error of reading \<open>.signal\<close> of \<open>null\<close>.\<close>

definition null_signal_error :: js_error where
  "null_signal_error =
     \<lparr>err_name = js ''TypeError'',
      err_message = js ''Cannot read properties of null (reading 'signal')'',
      err_cancel = False\<rparr>"

text \<open>Third piece: \<open>routeRequest\<close> has settled. The reply goes to the memory and to the
  client; then \<open>currentTTSController.signal\<close> is read for the call of the streamer.\<close>

definition after_route :: "conn \<Rightarrow> turn \<Rightarrow> js_error + jsstring \<Rightarrow> conn \<times> pending" where
  "after_route st t outcome =
     (case outcome of
        Inl err \<Rightarrow> (turn_failed st err, Finished)
      | Inr aiReply \<Rightarrow>
          (let st1 = updateMemory st (turn_transcript t) aiReply;
               st2 = send st1 (Reply aiReply);
               st3 = send st2 (Status (js ''Speaking...''))
           in (case currentTTSController st3 of
                 None \<Rightarrow> (turn_failed st3 null_signal_error, Finished)
               | Some c \<Rightarrow> (st3, CallTTS aiReply c (session_voiceId st3)))))"

text \<open>While the streamer's call is pending it sends audio on the client's socket; these
  messages are added as one block. The end marker is not among them: when the streamer has
  armed its timer, the timer's callback sends it later.\<close>

definition speak :: "conn \<Rightarrow> stream_env \<Rightarrow> jsstring \<Rightarrow> jsstring option \<Rightarrow> conn" where
  "speak st env text v = st\<lparr>sink := sink st @ fst (murfStreamSentences env text v)\<rparr>"

definition tts_end_timer :: "conn \<Rightarrow> conn" where
  "tts_end_timer st = send st TtsEnd"

text \<open>Last piece: the streamer's call has resolved.\<close>

definition after_tts :: "conn \<Rightarrow> conn" where
  "after_tts st =
     (let st1 = st\<lparr>currentTTSController := None\<rparr>;
          st2 = send st1 (Status (js ''Listening...''))
      in st2\<lparr>processingAudio := False\<rparr>)"



section \<open>The message handler of \<open>backend/server.js\<close>\<close>

text \<open>The earlier server keeps the same variables. Its interrupt leaves the controller in
  place, its limits are 3 and 10 code units, and a full stop counts like a question mark.\<close>

definition interrupt_server :: "conn \<Rightarrow> conn" where
  "interrupt_server st =
     (let st1 = (case currentTTSController st of
                   Some c \<Rightarrow> st\<lparr>aborted := aborted st @ [c]\<rparr>
                 | None \<Rightarrow> st);
          st2 = send st1 StopAudio
      in st2\<lparr>processingAudio := False\<rparr>)"

definition shouldProcess_server :: "results \<Rightarrow> bool" where
  "shouldProcess_server ev \<longleftrightarrow>
     speech_final ev \<or> length (transcript ev) > 10 \<or> js_includes (js ''?'') (transcript ev) \<or>
     js_includes (js ''.'') (transcript ev) \<or> confidence ev > HIGH_CONFIDENCE"

definition onResults_server :: "conn \<Rightarrow> results \<Rightarrow> conn" where
  "onResults_server st0 ev =
     (if \<not> isOpen st0 then st0
      else
        let st = (if processingAudio st0 \<and> \<not> is_final ev \<and> length (transcript ev) > 3
                  then interrupt_server st0 else st0)
        in
        if confidence ev < 1 / 2 \<and> length (transcript ev) < 3 then st
        else if trim (transcript ev) = [] then st
        else if \<not> is_final ev then send st (Transcript (transcript ev) False)
        else if length (trim (transcript ev)) > 1 then
          (let st1 = st\<lparr>transcriptTimeout := None\<rparr>;
               st2 = send st1 (Transcript (transcript ev) True)
           in
           if shouldProcess_server ev \<and> \<not> processingAudio st2 then
             st2\<lparr>transcriptTimeout :=
                    Some \<lparr>timer_id = timers_made st2, timer_text = transcript ev,
                          timer_delay = (if speech_final ev then 80 else 400)\<rparr>,
                  timers_made := Suc (timers_made st2)\<rparr>
           else st2)
        else st)"

section \<open>Names for the parts of a \<open>routeRequest\<close> call\<close>

text \<open>The fingerprint of a call, whether its look-up misses, the backend it tries first, the
  prompts it sends, what the first backend and the fallback answer to them, and the cleaning
  of a reply.\<close>

definition route_key :: "route_env \<Rightarrow> jsstring \<Rightarrow> jsstring \<Rightarrow> jsstring option \<Rightarrow> jsstring" where
  "route_key env text memoryContext documentContent =
     getCacheKey (md5_hex env) text memoryContext (truthy documentContent)"

definition cache_miss :: "route_env \<Rightarrow> cache \<Rightarrow> jsstring \<Rightarrow> jsstring \<Rightarrow> jsstring option \<Rightarrow> bool" where
  "cache_miss env c text memoryContext documentContent \<longleftrightarrow>
     \<not> truthy (fst (getCachedResponse c (now_lookup env)
                   (route_key env text memoryContext documentContent)))"

definition first_backend :: "jsstring \<Rightarrow> jsstring option \<Rightarrow> backend" where
  "first_backend text documentContent = primary_backend (classifyIntent text) text documentContent"

definition route_systemPrompt :: "jsstring \<Rightarrow> jsstring \<Rightarrow> jsstring option \<Rightarrow> jsstring" where
  "route_systemPrompt text memoryContext documentContent =
     getSystemPrompt (classifyIntent text) (buildMemoryContext memoryContext \<noteq> [])
       (truthy documentContent)"

definition route_prompt :: "jsstring \<Rightarrow> jsstring \<Rightarrow> jsstring option \<Rightarrow> jsstring" where
  "route_prompt text memoryContext documentContent =
     finalPrompt (classifyIntent text) text (buildMemoryContext memoryContext) documentContent"

definition first_answer ::
  "route_env \<Rightarrow> jsstring \<Rightarrow> jsstring \<Rightarrow> jsstring option \<Rightarrow> js_error + jsstring" where
  "first_answer env text memoryContext documentContent =
     call_backend env (first_backend text documentContent)
       (route_prompt text memoryContext documentContent)
       (route_systemPrompt text memoryContext documentContent)"

definition fallback_answer ::
  "route_env \<Rightarrow> jsstring \<Rightarrow> jsstring \<Rightarrow> jsstring option \<Rightarrow> js_error + jsstring" where
  "fallback_answer env text memoryContext documentContent =
     callGroq env (route_prompt text memoryContext documentContent)
       (route_systemPrompt text memoryContext documentContent)"

definition clean :: "jsstring \<Rightarrow> jsstring" where
  "clean resp = trim (strip_name_prefix resp)"

text \<open>The raw answer of the backend that answers a call which misses the cache, if one
  does.\<close>

definition route_answer ::
  "route_env \<Rightarrow> jsstring \<Rightarrow> jsstring \<Rightarrow> jsstring option \<Rightarrow> jsstring option" where
  "route_answer env text memoryContext documentContent =
     (case first_answer env text memoryContext documentContent of
        Inr a \<Rightarrow> Some a
      | Inl e \<Rightarrow>
          if is_abort e then None
          else (case fallback_answer env text memoryContext documentContent of
                  Inr a \<Rightarrow> Some a
                | Inl e2 \<Rightarrow> None))"

text \<open>A call completes successfully when its look-up hits or a backend answers it (otherwise
  it is rejected with an \<open>AbortError\<close> or resolves with the fixed apology).\<close>

definition route_served ::
  "route_env \<Rightarrow> cache \<Rightarrow> jsstring \<Rightarrow> jsstring \<Rightarrow> jsstring option \<Rightarrow> bool" where
  "route_served env c text memoryContext documentContent \<longleftrightarrow>
     \<not> cache_miss env c text memoryContext documentContent \<or>
     route_answer env text memoryContext documentContent \<noteq> None"

section \<open>Example inputs\<close>

text \<open>A cache at capacity: one hundred entries with distinct keys of sixteen digits.\<close>

definition full_cache :: cache where
  "full_cache =
     map (\<lambda>i. (replicate 14 48 @ [48 + i div 10, 48 + i mod 10],
               \<lparr>response = js ''ok'', timestamp = 0\<rparr>)) [0..<100]"

text \<open>Surroundings of \<open>routeRequest\<close> in which every backend answers, the digest is replaced by
  the identity, the look-up happens at 1000 ms and the store at 2000 ms.\<close>

definition example_env :: route_env where
  "example_env =
     \<lparr>md5_hex = (\<lambda>s. s),
      gemini_flash = (\<lambda>p. Inr (js ''Hello there.'')),
      gemini_pro = (\<lambda>p. Inr (js ''Here is a longer answer.'')),
      groq_chat = (\<lambda>s p. Inr (js ''Answer of the fallback.'')),
      now_lookup = 1000,
      now_store = 2000\<rparr>"

text \<open>A cache that holds an answer for the query \<open>Hi\<close> without a document.\<close>

definition hi_cache :: cache where
  "hi_cache = [(js ''hino-doc'', \<lparr>response = js ''Hello there.'', timestamp = 0\<rparr>)]"

text \<open>Surroundings of the streamer in which nothing is aborted, every request gives three
  bytes of audio and the client's socket stays open.\<close>

definition example_stream_env :: stream_env where
  "example_stream_env =
     \<lparr>aborted_before = (\<lambda>i. False),
      murf_api = (\<lambda>i voice_id text. Inr [73, 68, 51]),
      aborted_after = (\<lambda>i. False),
      ws_open = (\<lambda>i. True),
      ws_open_end = True\<rparr>"

text \<open>Errors of a backend, and surroundings in which the Gemini backends fail with them.\<close>

definition quota_error :: js_error where
  "quota_error = \<lparr>err_name = js ''Error'', err_message = js ''429 Too Many Requests'', err_cancel = False\<rparr>"

definition abort_error :: js_error where
  "abort_error = \<lparr>err_name = js ''AbortError'', err_message = js ''This operation was aborted'', err_cancel = False\<rparr>"

definition failing_primary_env :: route_env where
  "failing_primary_env = example_env\<lparr>gemini_flash := (\<lambda>p. Inl quota_error), gemini_pro := (\<lambda>p. Inl quota_error)\<rparr>"

definition aborted_primary_env :: route_env where
  "aborted_primary_env = example_env\<lparr>gemini_flash := (\<lambda>p. Inl abort_error), gemini_pro := (\<lambda>p. Inl abort_error)\<rparr>"

text \<open>Surroundings in which the Gemini backends fail and Groq puts the assistant's name
  before its answer, and surroundings in which Gemini Flash answers with the empty text.\<close>

definition prefixed_fallback_env :: route_env where
  "prefixed_fallback_env =
     failing_primary_env\<lparr>groq_chat := (\<lambda>s p. Inr (js ''Gyaanchand: Hello''))\<rparr>"

definition silent_env :: route_env where
  "silent_env = example_env\<lparr>gemini_flash := (\<lambda>p. Inr [])\<rparr>"

section \<open>Candidates for a turn, and an example connection\<close>

text \<open>A final event becomes a candidate for the end of a turn when the handler arms a new
  debounce timer for its transcript. \<open>passes_gates\<close> collects the tests that stand before
  \<open>shouldProcess\<close> in both handlers: the noise filter, and more than one code unit left after
  trimming (which covers the test for a blank transcript).\<close>

definition becomes_candidate :: "conn \<Rightarrow> conn \<Rightarrow> results \<Rightarrow> bool" where
  "becomes_candidate st st' ev \<longleftrightarrow>
     timers_made st' = Suc (timers_made st) \<and>
     (case transcriptTimeout st' of
        None \<Rightarrow> False
      | Some tm \<Rightarrow> timer_id tm = timers_made st \<and> timer_text tm = transcript ev)"

definition passes_gates :: "results \<Rightarrow> bool" where
  "passes_gates ev \<longleftrightarrow>
     (confidence ev \<ge> 1 / 2 \<or> length (transcript ev) \<ge> 3) \<and> length (trim (transcript ev)) > 1"

text \<open>A connection that has just been opened, for a session with the default voice and no
  document.\<close>

definition idle_conn :: conn where
  "idle_conn =
     \<lparr>processingAudio = False, isOpen = True, transcriptTimeout = None, timers_made = 0,
      currentTTSController = None, controllers_made = 0, aborted = [],
      memory = \<lparr>userName = None, lastUserMessages = [], lastBotMessages = []\<rparr>,
      sink = [], session_document = None, session_voiceId = Some (js ''en-US-terrell'')\<rparr>"

text \<open>Events of the recogniser: an interim \<open>wait\<close> of low confidence; a final event with the
  end-of-speech marker and no text; a final question mark alone; a final \<open>Okay.\<close>; the
  question \<open>Why?\<close>; and a request to send an email.\<close>

definition ev_wait :: results where
  "ev_wait = \<lparr>transcript = js ''wait'', is_final = False, speech_final = False, confidence = 3 / 8\<rparr>"

definition ev_silence :: results where
  "ev_silence = \<lparr>transcript = [], is_final = True, speech_final = True, confidence = 0\<rparr>"

definition ev_mark :: results where
  "ev_mark = \<lparr>transcript = js ''?'', is_final = True, speech_final = False, confidence = 15 / 16\<rparr>"

definition ev_okay :: results where
  "ev_okay = \<lparr>transcript = js ''Okay.'', is_final = True, speech_final = False, confidence = 3 / 4\<rparr>"

definition ev_why :: results where
  "ev_why = \<lparr>transcript = js ''Why?'', is_final = True, speech_final = True, confidence = 15 / 16\<rparr>"

definition ev_email :: results where
  "ev_email = \<lparr>transcript = js ''Send an email to bob@example.com'', is_final = True,
               speech_final = True, confidence = 15 / 16\<rparr>"

text \<open>The turn for \<open>Why?\<close> on the new connection, and the connection while the turn waits for
  \<open>routeRequest\<close>, after an interim \<open>wait\<close> has then come in, and while the turn waits for the
  streamer.\<close>

definition turn_why :: turn where
  "turn_why = \<lparr>turn_transcript = js ''Why?'', turn_memoryContext = [], turn_documentContent = None\<rparr>"

definition thinking_conn :: conn where
  "thinking_conn =
     idle_conn\<lparr>sink := [Transcript (js ''Why?'') True, Status (js ''Thinking...'')],
       timers_made := 1, processingAudio := True,
       currentTTSController := Some 0, controllers_made := 1\<rparr>"

definition interrupted_conn :: conn where
  "interrupted_conn =
     idle_conn\<lparr>sink := [Transcript (js ''Why?'') True, Status (js ''Thinking...''), StopAudio,
                       Transcript (js ''wait'') False],
       timers_made := 1, controllers_made := 1, aborted := [0]\<rparr>"


text \<open>The turn for the email request, the connection while the turn waits for \<open>handleAction\<close>
  (which waits for the mail service), and the message of \<open>handleAction\<close> when the service
  refuses.\<close>

definition turn_email :: turn where
  "turn_email = \<lparr>turn_transcript = js ''Send an email to bob@example.com'',
                  turn_memoryContext = [], turn_documentContent = None\<rparr>"

definition acting_conn :: conn where
  "acting_conn =
     idle_conn\<lparr>sink := [Transcript (js ''Send an email to bob@example.com'') True,
                       Status (js ''Thinking...'')],
       timers_made := 1, processingAudio := True\<rparr>"

definition email_refused :: jsstring where
  "email_refused = js ''Sorry, I couldn't send the email. Error: invalid_grant''"

section \<open>The chunker's loop, and example texts\<close>

text \<open>The sentences that \<open>splitIntoChunks\<close> folds over, and the chunks that a state of the loop
  gives when the loop ends there.\<close>

definition sentences_of :: "jsstring \<Rightarrow> jsstring list" where
  "sentences_of text = filter (\<lambda>s. s \<noteq> []) (split_rx sentence_sep (sanitizeForTTS text))"

definition flush :: "chunker \<Rightarrow> jsstring list" where
  "flush st = (case st of (chunks, current) \<Rightarrow> if current \<noteq> [] then chunks @ [current] else chunks)"

text \<open>A chunk is within the bound when it has at most 150 code units without its outer white
  space, or is one of the parts into which the pattern of the inner loop cuts a sentence of
  more than 150 code units. A state of the loop is bounded when its chunks and its running
  chunk are.\<close>

definition within_bound :: "jsstring list \<Rightarrow> jsstring \<Rightarrow> bool" where
  "within_bound ss c \<longleftrightarrow>
     length (trim c) \<le> 150 \<or>
     (\<exists>s\<in>set ss. length s > 150 \<and> c \<in> set (split_rx clause_sep s))"

definition bounded_state :: "jsstring list \<Rightarrow> chunker \<Rightarrow> bool" where
  "bounded_state ss st \<longleftrightarrow>
     (\<forall>c\<in>set (fst st). within_bound ss c) \<and> (snd st = [] \<or> within_bound ss (snd st))"

text \<open>A separator pattern misses at a position when it does not match there with a positive
  length. \<open>nomatch m prev x b\<close>: the pattern misses at every position of \<open>x\<close>, where \<open>x\<close> comes
  after the code unit \<open>prev\<close> and \<open>b\<close> comes after \<open>x\<close>.\<close>

definition misses :: "matcher \<Rightarrow> nat option \<Rightarrow> jsstring \<Rightarrow> bool" where
  "misses m prev s \<longleftrightarrow> (case m prev s of None \<Rightarrow> True | Some n \<Rightarrow> n = 0)"

fun nomatch :: "matcher \<Rightarrow> nat option \<Rightarrow> jsstring \<Rightarrow> jsstring \<Rightarrow> bool" where
  "nomatch m prev [] b \<longleftrightarrow> True"
| "nomatch m prev (c # cs) b \<longleftrightarrow> misses m prev (c # cs @ b) \<and> nomatch m (Some c) cs b"





definition is_mark :: "nat option \<Rightarrow> bool" where
  "is_mark prev \<longleftrightarrow> prev = Some 46 \<or> prev = Some 33 \<or> prev = Some 63"


definition bridge_text :: jsstring where
  "bridge_text =
     js ''Sure. The old stone bridge crosses the river just north of the market square, which is why the weekly fair has been held on the southern bank for years , so most visitors walk over it on their way to the castle.''"


definition committee_text :: jsstring where
  "committee_text =
     js ''Stop. The committee that reviewed the proposal for the new bridge over the northern river decided after a long debate that the work should start in the first week of the coming spring season.''"

text \<open>The long sentence of the fourth reply, and the second chunk of the second reply.\<close>

definition committee_sentence :: jsstring where
  "committee_sentence =
     js ''The committee that reviewed the proposal for the new bridge over the northern river decided after a long debate that the work should start in the first week of the coming spring season.''"

definition bridge_chunk :: jsstring where
  "bridge_chunk =
     js ''Sure. The old stone bridge crosses the river just north of the market square which is why the weekly fair has been held on the southern bank for years ''"


section \<open>Properties of the cache\<close>

lemma map_size_map_set_fresh:
  "key \<notin> fst ` set c \<Longrightarrow> map_size (map_set c key v) = Suc (map_size c)"
  by (simp add: map_set_def map_size_def)

lemma map_delete_fresh: "key \<notin> fst ` set c \<Longrightarrow> map_delete c key = c"
  by (induction c) (auto simp: map_delete_def)

lemma setCachedResponse_fresh_size:
  "key \<notin> fst ` set c \<Longrightarrow> map_size (setCachedResponse c now key resp) = Suc (map_size c)"
  by (simp add: setCachedResponse_def Let_def map_delete_fresh map_size_map_set_fresh)

lemma full_cache_keys: "k \<in> fst ` set full_cache \<Longrightarrow> hd k = 48"
  by (auto simp: full_cache_def)

lemma full_cache_size: "map_size full_cache = 100"
  by (simp add: full_cache_def map_size_def)

text \<open>
  C8. The claim: the cache never holds more than \<open>MAX_CACHE_SIZE\<close> = 100 entries, because a
  store at capacity first evicts an entry. In the code the store at capacity deletes the key
  that is being stored, not \<open>firstKey\<close>: storing a new key into the full cache of one hundred
  entries leaves one hundred and one.
\<close>

theorem setCachedResponse_exceeds_capacity:
  "map_size full_cache = MAX_CACHE_SIZE \<and>
   map_size (setCachedResponse full_cache now (js ''ffffffffffffffff'') resp) = 101"
proof -
  have "js ''ffffffffffffffff'' \<notin> fst ` set full_cache"
    using full_cache_keys[of "js ''ffffffffffffffff''"] by (auto simp: js_def)
  then show ?thesis
    by (simp add: setCachedResponse_fresh_size full_cache_size MAX_CACHE_SIZE_def)
qed

text \<open>
  C9. The fingerprint that \<open>routeRequest\<close> computes does not depend on the memory snippet: for
  every query text, document flag and digest function, two memory snippets give the same key.
  Hence a call that hits the cache returns the same reply, leaves the same cache and invokes
  the same (no) backends whatever the memory snippet is.
\<close>

theorem getCacheKey_ignores_memory:
  "getCacheKey h text m1 d = getCacheKey h text m2 d \<and>
   (truthy (fst (getCachedResponse c (now_lookup env)
                   (getCacheKey (md5_hex env) text m1 (truthy doc)))) \<longrightarrow>
    routeRequest env c text m1 doc = routeRequest env c text m2 doc)"
proof -
  have k: "\<And>h d. getCacheKey h text m1 d = getCacheKey h text m2 d"
    by (simp add: getCacheKey_def)
  show ?thesis
    by (simp add: routeRequest_def Let_def k split: prod.splits)
qed

theorem getCacheKey_ignores_memory_witness:
  "truthy (fst (getCachedResponse hi_cache (now_lookup example_env)
                  (getCacheKey (md5_hex example_env) (js ''Hi'') (js ''User: Bob'') (truthy None)))) \<and>
   getCacheKey (md5_hex example_env) (js ''Hi'') (js ''User: Bob'') False = js ''hino-doc'' \<and>
   routeRequest example_env hi_cache (js ''Hi'') (js ''User: Bob'') None =
   routeRequest example_env hi_cache (js ''Hi'') [] None"
proof -
  have key: "getCacheKey (md5_hex example_env) (js ''Hi'') (js ''User: Bob'') False = js ''hino-doc''"
    by (simp add: getCacheKey_def toLowerCase_def trim_def is_word_def is_space_def js_def
        example_env_def)
  have hit: "truthy (fst (getCachedResponse hi_cache (now_lookup example_env)
                  (getCacheKey (md5_hex example_env) (js ''Hi'') (js ''User: Bob'') (truthy None))))"
    by (simp add: key truthy_def)
       (simp add: getCachedResponse_def map_get_def hi_cache_def CACHE_TTL_def example_env_def
          truthy_def js_def)
  from hit key
    getCacheKey_ignores_memory[of "md5_hex example_env" "js ''Hi''" "js ''User: Bob''" False "[]"
      hi_cache example_env None]
  show ?thesis by simp
qed

section \<open>Properties of the streamer\<close>

text \<open>A string that \<open>trim\<close> empties consists of white space, and \<open>sanitizeForTTS\<close> empties it
  too.\<close>

lemma trim_empty_iff: "trim s = [] \<longleftrightarrow> (\<forall>c\<in>set s. is_space c)"
proof
  assume "trim s = []"
  then have "\<forall>x\<in>set (dropWhile is_space s). is_space x"
    by (simp add: trim_def)
  then have "dropWhile is_space s = []"
    by (metis hd_dropWhile list.set_sel(1))
  then show "\<forall>c\<in>set s. is_space c"
    by simp
next
  assume "\<forall>c\<in>set s. is_space c"
  then show "trim s = []"
    by (auto simp: trim_def dest: set_dropWhileD)
qed

lemma space_not_special:
  "is_space c \<Longrightarrow> c \<noteq> 34 \<and> c \<noteq> 171 \<and> c \<noteq> 187 \<and> c \<noteq> 8222 \<and> c \<noteq> 39 \<and> c \<noteq> 8230 \<and> c \<noteq> 42 \<and> c \<noteq> 96
     \<and> lower_ascii c \<noteq> 103"
  by (auto simp: is_space_def lower_ascii_def)

lemma remove_double_star_id: "42 \<notin> set s \<Longrightarrow> remove_double_star s = s"
  by (induction s rule: remove_double_star.induct) auto

lemma ellipsis_id: "8230 \<notin> set s \<Longrightarrow> concat (map (\<lambda>c. if c = 8230 then js ''...'' else [c]) s) = s"
  by (induction s) auto

lemma strip_name_prefix_space: "\<forall>c\<in>set s. is_space c \<Longrightarrow> strip_name_prefix s = s"
  by (cases s) (auto simp: strip_name_prefix_def starts_with_ci_def js_def dest: space_not_special)

lemma is_space_32: "is_space 32"
  by (simp add: is_space_def)

lemma collapse_ws_spaces:
  assumes "\<forall>c\<in>set s. is_space c"
  shows "trim (collapse_ws s) = []"
proof (cases s)
  case Nil
  then show ?thesis by (simp add: trim_def)
next
  case (Cons c cs)
  with assms have "is_space c" and d: "dropWhile is_space cs = []" by simp_all
  then have "collapse_ws s = [32]" unfolding Cons by (simp only: collapse_ws.simps if_True d)
  then show ?thesis by (simp add: trim_def is_space_32)
qed

lemma sanitize_blank: assumes "trim s = []" shows "sanitizeForTTS s = []"
proof -
  from assms have sp: "\<forall>c\<in>set s. is_space c" by (simp add: trim_empty_iff)
  have m1: "map (\<lambda>c. if c = 34 \<or> c = 171 \<or> c = 187 \<or> c = 8222 then 34 else c) s = s"
    by (rule map_idI) (use sp space_not_special in auto)
  have m2: "map (\<lambda>c. if c = 39 then 39 else c) s = s"
    by (rule map_idI) simp
  have m3: "concat (map (\<lambda>c. if c = 8230 then js ''...'' else [c]) s) = s"
    by (rule ellipsis_id) (use sp space_not_special in blast)
  have m4: "remove_double_star s = s"
    by (rule remove_double_star_id) (use sp space_not_special in blast)
  have m5: "filter (\<lambda>c. c \<noteq> 96) s = s"
    using sp space_not_special by (auto simp: filter_id_conv)
  show ?thesis
    by (simp add: sanitizeForTTS_def Let_def m1 m2 m3 m4 m5 strip_name_prefix_space[OF sp]
        collapse_ws_spaces[OF sp])
qed

text \<open>
  C10. If the reply text handed to \<open>murfStreamSentences\<close> is empty or white space only, then
  chunking yields no chunks and the streamer sends nothing: no audio and no error message,
  and it does not arm the timer of the end marker; the messages on the client's socket are
  the ones that were there before.
\<close>

theorem murfStreamSentences_nothing_to_say:
  assumes "text = [] \<or> trim text = []"
  shows "splitIntoChunks (sanitizeForTTS text) = [] \<and> splitIntoChunks text = [] \<and>
         murfStreamSentences env text v = ([], False) \<and> sink (speak st env text v) = sink st"
proof -
  from assms have t: "trim text = []" by (auto simp: trim_def)
  then have s: "sanitizeForTTS text = []" by (rule sanitize_blank)
  then have "splitIntoChunks text = []" by (simp add: splitIntoChunks_def)
  moreover from s have "splitIntoChunks (sanitizeForTTS text) = []"
    by (simp add: splitIntoChunks_def sanitizeForTTS_def)
  moreover from t have "murfStreamSentences env text v = ([], False)"
    by (simp add: murfStreamSentences_def)
  ultimately show ?thesis by (simp add: speak_def)
qed

theorem murfStreamSentences_nothing_to_say_witness:
  "trim (js ''  '') = [] \<and> splitIntoChunks (js ''  '') = [] \<and>
   murfStreamSentences example_stream_env (js ''  '') None = ([], False)"
proof -
  have h: "trim (js ''  '') = []" by (simp add: trim_def js_def is_space_def)
  with murfStreamSentences_nothing_to_say[of "js ''  ''" example_stream_env None] show ?thesis
    by simp
qed

section \<open>Properties of the router\<close>

lemma dropWhile_hd_id: "xs = [] \<or> \<not> P (hd xs) \<Longrightarrow> dropWhile P xs = xs"
  by (cases xs) auto

lemma trim_idem: "trim (trim s) = trim s"
proof -
  define d where "d = dropWhile is_space s"
  define e where "e = dropWhile is_space (rev d)"
  have d0: "d = [] \<or> \<not> is_space (hd d)"
    unfolding d_def using hd_dropWhile[of is_space s] by blast
  have e0: "dropWhile is_space e = e"
    unfolding e_def by simp
  obtain n where n: "e = drop n (rev d)"
    unfolding e_def using dropWhile_eq_drop by blast
  have "rev e = take (length d - n) d"
    unfolding n by (simp add: rev_drop)
  then have "rev e = [] \<or> \<not> is_space (hd (rev e))"
    using d0 by (cases "length d - n") auto
  then have "dropWhile is_space (rev e) = rev e"
    by (rule dropWhile_hd_id)
  then show ?thesis
    by (simp add: trim_def d_def[symmetric] e_def[symmetric] e0)
qed

text \<open>A call that misses the cache, in terms of the names above.\<close>

lemma routeRequest_miss:
  assumes "cache_miss env c text m doc"
  shows "routeRequest env c text m doc =
     (let c1 = snd (getCachedResponse c (now_lookup env) (route_key env text m doc));
          first = first_backend text doc;
          finish = (\<lambda>resp calls. (Inr (clean resp),
                      setCachedResponse c1 (now_store env) (route_key env text m doc) (clean resp), calls))
      in case first_answer env text m doc of
           Inr resp \<Rightarrow> finish resp [first]
         | Inl err \<Rightarrow>
             if is_abort err then (Inl err, c1, [first])
             else (case fallback_answer env text m doc of
                     Inr resp \<Rightarrow> finish resp [first, Groq]
                   | Inl error \<Rightarrow>
                       if is_abort error then (Inl error, c1, [first, Groq])
                       else (Inr apology, c1, [first, Groq])))"
proof -
  obtain r c1 where g: "getCachedResponse c (now_lookup env)
      (getCacheKey (md5_hex env) text m (truthy doc)) = (r, c1)"
    by (cases "getCachedResponse c (now_lookup env)
      (getCacheKey (md5_hex env) text m (truthy doc))")
  with assms have "\<not> truthy r"
    by (simp add: cache_miss_def route_key_def)
  with g show ?thesis
    by (simp add: routeRequest_def route_key_def first_backend_def first_answer_def
      fallback_answer_def route_prompt_def route_systemPrompt_def clean_def Let_def
      split: sum.splits)
qed

lemma first_backend_not_Groq:
  "first_backend text doc \<noteq> Groq" "Groq \<noteq> first_backend text doc"
  by (simp_all add: first_backend_def primary_backend_def)


lemma fallback_answer_trimmed: "fallback_answer env text m doc = Inr a \<Longrightarrow> trim a = a"
  by (auto simp: fallback_answer_def callGroq_def trim_idem split: sum.splits)

lemma clean_unprefixed:
  "fallback_answer env text m doc = Inr a \<Longrightarrow> \<not> starts_with_ci (js ''gyaanchand:'') a \<Longrightarrow>
   clean a = a"
  by (simp add: clean_def strip_name_prefix_def fallback_answer_trimmed)

lemma first_backend_by_intent:
  "first_backend text doc =
     (if document_mode (classifyIntent text) text doc then GeminiPro
      else if itype (classifyIntent text) = IGreeting \<or> icomplexity (classifyIntent text) = CSimple
        then GeminiFlash
      else GeminiPro)"
  by (simp add: first_backend_def primary_backend_def)

lemma first_answer_raw:
  "first_answer env text m doc =
     (case (if first_backend text doc = GeminiFlash then gemini_flash env else gemini_pro env)
             (route_systemPrompt text m doc @ js ''\<newline>\<newline>'' @ route_prompt text m doc) of
        Inl e \<Rightarrow> Inl e
      | Inr t \<Rightarrow> Inr (trim t))"
  using first_backend_not_Groq(1)[of "text" doc]
  by (cases "first_backend text doc")
     (simp_all add: first_answer_def call_backend_def callGeminiFlash_def callGeminiPro_def)

lemma fallback_answer_raw:
  "fallback_answer env text m doc =
     (case groq_chat env (route_systemPrompt text m doc) (route_prompt text m doc) of
        Inl e \<Rightarrow> Inl e
      | Inr t \<Rightarrow> Inr (trim t))"
  by (simp add: fallback_answer_def callGroq_def)

text \<open>
  C3, as the code has it. For every call of \<open>routeRequest\<close> that misses the cache: the backend
  selected by intent and complexity (Gemini Pro in document mode, else Gemini Flash for a
  greeting or a simple query, else Gemini Pro) is invoked first; if it answers, no other
  backend is invoked; if it fails with an error that is not an \<open>AbortError\<close>, the fallback
  backend (Groq) is invoked, exactly once, and when it answers the call returns its answer
  after the reply cleaning, that is without a leading \<open>Gyaanchand:\<close> and without outer white
  space, so unchanged when it has no such prefix; if the first backend fails with an
  \<open>AbortError\<close>, the call is rejected with that error and the fallback is not invoked. The
  answer of a backend is the trimmed text that the service gives for the prompts of the call.
\<close>

theorem routeRequest_fallback_chain:
  assumes "cache_miss env c text m doc"
  shows "first_backend text doc =
           (if document_mode (classifyIntent text) text doc then GeminiPro
            else if itype (classifyIntent text) = IGreeting \<or>
                    icomplexity (classifyIntent text) = CSimple then GeminiFlash
            else GeminiPro) \<and>
         first_answer env text m doc =
           (case (if first_backend text doc = GeminiFlash then gemini_flash env else gemini_pro env)
                   (route_systemPrompt text m doc @ js ''\<newline>\<newline>'' @ route_prompt text m doc) of
              Inl e \<Rightarrow> Inl e
            | Inr t \<Rightarrow> Inr (trim t)) \<and>
         fallback_answer env text m doc =
           (case groq_chat env (route_systemPrompt text m doc) (route_prompt text m doc) of
              Inl e \<Rightarrow> Inl e
            | Inr t \<Rightarrow> Inr (trim t)) \<and>
         (\<exists>rest. snd (snd (routeRequest env c text m doc)) = first_backend text doc # rest) \<and>
         (\<forall>a. first_answer env text m doc = Inr a \<longrightarrow>
            fst (routeRequest env c text m doc) = Inr (clean a) \<and>
            snd (snd (routeRequest env c text m doc)) = [first_backend text doc]) \<and>
         (\<forall>e. first_answer env text m doc = Inl e \<and> \<not> is_abort e \<longrightarrow>
            snd (snd (routeRequest env c text m doc)) = [first_backend text doc, Groq] \<and>
            count_list (snd (snd (routeRequest env c text m doc))) Groq = 1 \<and>
            (\<forall>a. fallback_answer env text m doc = Inr a \<longrightarrow>
               fst (routeRequest env c text m doc) = Inr (clean a) \<and>
               (\<not> starts_with_ci (js ''gyaanchand:'') a \<longrightarrow>
                  fst (routeRequest env c text m doc) = Inr a))) \<and>
         (\<forall>e. first_answer env text m doc = Inl e \<and> is_abort e \<longrightarrow>
            fst (routeRequest env c text m doc) = Inl e \<and>
            snd (snd (routeRequest env c text m doc)) = [first_backend text doc] \<and>
            Groq \<notin> set (snd (snd (routeRequest env c text m doc))))"
proof -
  have "(\<exists>rest. snd (snd (routeRequest env c text m doc)) = first_backend text doc # rest) \<and>
         (\<forall>a. first_answer env text m doc = Inr a \<longrightarrow>
            fst (routeRequest env c text m doc) = Inr (clean a) \<and>
            snd (snd (routeRequest env c text m doc)) = [first_backend text doc]) \<and>
         (\<forall>e. first_answer env text m doc = Inl e \<and> \<not> is_abort e \<longrightarrow>
            snd (snd (routeRequest env c text m doc)) = [first_backend text doc, Groq] \<and>
            count_list (snd (snd (routeRequest env c text m doc))) Groq = 1 \<and>
            (\<forall>a. fallback_answer env text m doc = Inr a \<longrightarrow>
               fst (routeRequest env c text m doc) = Inr (clean a) \<and>
               (\<not> starts_with_ci (js ''gyaanchand:'') a \<longrightarrow>
                  fst (routeRequest env c text m doc) = Inr a))) \<and>
         (\<forall>e. first_answer env text m doc = Inl e \<and> is_abort e \<longrightarrow>
            fst (routeRequest env c text m doc) = Inl e \<and>
            snd (snd (routeRequest env c text m doc)) = [first_backend text doc] \<and>
            Groq \<notin> set (snd (snd (routeRequest env c text m doc))))"
    by (auto simp: routeRequest_miss[OF assms] Let_def first_backend_not_Groq clean_unprefixed
        split: sum.splits)
  with first_backend_by_intent[of "text" doc] first_answer_raw[of env "text" m doc]
    fallback_answer_raw[of env "text" m doc]
  show ?thesis by blast
qed



text \<open>The query \<open>Hi there\<close> is a greeting, so its first backend is Gemini Flash.\<close>

lemmas rx_eval = js_def is_space_def lower_ascii_def lit_def plus_def opt_def
  seqs_def alts_def rx_prefix_def

lemma classify_hi_there: "classifyIntent (js ''Hi there'') = \<lparr>itype = IGreeting, icomplexity = CSimple\<rparr>"
  by (simp add: classifyIntent_def rx_email_def rx_calendar_def rx_document_def rx_greeting_def rx_eval)

lemma first_backend_hi_there: "first_backend (js ''Hi there'') None = GeminiFlash"
  by (simp add: first_backend_def classify_hi_there primary_backend_def document_mode_def truthy_def)

lemma trim_answer: "trim (js ''Answer of the fallback.'') = js ''Answer of the fallback.''"
  by (simp add: trim_def js_def is_space_def)

lemma clean_answer: "clean (js ''Answer of the fallback.'') = js ''Answer of the fallback.''"
  by (simp add: clean_def strip_name_prefix_def starts_with_ci_def trim_answer)
     (simp add: js_def lower_ascii_def)

theorem routeRequest_fallback_chain_witness:
  "cache_miss failing_primary_env [] (js ''Hi there'') [] None \<and>
   first_answer failing_primary_env (js ''Hi there'') [] None = Inl quota_error \<and>
   \<not> is_abort quota_error \<and>
   fallback_answer failing_primary_env (js ''Hi there'') [] None = Inr (js ''Answer of the fallback.'') \<and>
   fst (routeRequest failing_primary_env [] (js ''Hi there'') [] None) = Inr (js ''Answer of the fallback.'') \<and>
   snd (snd (routeRequest failing_primary_env [] (js ''Hi there'') [] None)) = [GeminiFlash, Groq] \<and>
   cache_miss aborted_primary_env [] (js ''Hi there'') [] None \<and>
   first_answer aborted_primary_env (js ''Hi there'') [] None = Inl abort_error \<and>
   is_abort abort_error \<and>
   fst (routeRequest aborted_primary_env [] (js ''Hi there'') [] None) = Inl abort_error \<and>
   snd (snd (routeRequest aborted_primary_env [] (js ''Hi there'') [] None)) = [GeminiFlash]"
proof -
  have miss: "cache_miss failing_primary_env [] (js ''Hi there'') [] None"
    "cache_miss aborted_primary_env [] (js ''Hi there'') [] None"
    by (simp_all add: cache_miss_def getCachedResponse_def map_get_def truthy_def)
  have fa: "first_answer failing_primary_env (js ''Hi there'') [] None = Inl quota_error"
    "first_answer aborted_primary_env (js ''Hi there'') [] None = Inl abort_error"
    by (simp_all add: first_answer_def first_backend_hi_there call_backend_def callGeminiFlash_def
        failing_primary_env_def aborted_primary_env_def example_env_def)
  have fb: "fallback_answer failing_primary_env (js ''Hi there'') [] None = Inr (js ''Answer of the fallback.'')"
    by (simp add: fallback_answer_def callGroq_def failing_primary_env_def example_env_def trim_answer)
  have ab: "\<not> is_abort quota_error" "is_abort abort_error"
    by (simp_all add: is_abort_def quota_error_def abort_error_def js_def)
  from routeRequest_fallback_chain[OF miss(1)] routeRequest_fallback_chain[OF miss(2)]
    miss fa fb ab first_backend_hi_there clean_answer
  show ?thesis by simp
qed

text \<open>
  C3 as stated fails where the fallback puts the assistant's name before its answer. Gemini
  Flash fails with a quota error on the greeting \<open>Hi there\<close>, Groq answers
  \<open>Gyaanchand: Hello\<close>, and the call returns \<open>Hello\<close>, which is not the fallback's answer.
\<close>

theorem routeRequest_fallback_answer_cleaned:
  "cache_miss prefixed_fallback_env [] (js ''Hi there'') [] None \<and>
   first_answer prefixed_fallback_env (js ''Hi there'') [] None = Inl quota_error \<and>
   \<not> is_abort quota_error \<and>
   groq_chat prefixed_fallback_env (route_systemPrompt (js ''Hi there'') [] None)
     (route_prompt (js ''Hi there'') [] None) = Inr (js ''Gyaanchand: Hello'') \<and>
   fallback_answer prefixed_fallback_env (js ''Hi there'') [] None = Inr (js ''Gyaanchand: Hello'') \<and>
   snd (snd (routeRequest prefixed_fallback_env [] (js ''Hi there'') [] None)) = [GeminiFlash, Groq] \<and>
   fst (routeRequest prefixed_fallback_env [] (js ''Hi there'') [] None) = Inr (js ''Hello'') \<and>
   js ''Hello'' \<noteq> js ''Gyaanchand: Hello''"
proof -
  have miss: "cache_miss prefixed_fallback_env [] (js ''Hi there'') [] None"
    by (simp add: cache_miss_def getCachedResponse_def map_get_def truthy_def)
  have fa: "first_answer prefixed_fallback_env (js ''Hi there'') [] None = Inl quota_error"
    by (simp add: first_answer_def first_backend_hi_there call_backend_def callGeminiFlash_def
        prefixed_fallback_env_def failing_primary_env_def example_env_def)
  have g: "groq_chat prefixed_fallback_env (route_systemPrompt (js ''Hi there'') [] None)
     (route_prompt (js ''Hi there'') [] None) = Inr (js ''Gyaanchand: Hello'')"
    by (simp add: prefixed_fallback_env_def)
  have tr: "trim (js ''Gyaanchand: Hello'') = js ''Gyaanchand: Hello''"
    by (simp add: trim_def js_def is_space_def)
  have fb: "fallback_answer prefixed_fallback_env (js ''Hi there'') [] None =
      Inr (js ''Gyaanchand: Hello'')"
    by (simp add: fallback_answer_raw g tr)
  have cl: "clean (js ''Gyaanchand: Hello'') = js ''Hello''"
    by (simp add: clean_def strip_name_prefix_def starts_with_ci_def trim_def js_def
        lower_ascii_def is_space_def)
  have ab: "\<not> is_abort quota_error"
    by (simp add: is_abort_def quota_error_def js_def)
  have ne: "js ''Hello'' \<noteq> js ''Gyaanchand: Hello''"
    by (simp add: js_def)
  have "routeRequest prefixed_fallback_env [] (js ''Hi there'') [] None =
      (Inr (js ''Hello''),
       setCachedResponse (snd (getCachedResponse [] (now_lookup prefixed_fallback_env)
           (route_key prefixed_fallback_env (js ''Hi there'') [] None)))
         (now_store prefixed_fallback_env)
         (route_key prefixed_fallback_env (js ''Hi there'') [] None) (js ''Hello''),
       [GeminiFlash, Groq])"
    by (simp add: routeRequest_miss[OF miss] fa fb ab cl Let_def first_backend_hi_there)
  with miss fa g fb ab ne show ?thesis by simp
qed

section \<open>Repeated calls and the cache\<close>

lemma map_get_map_set: "map_get (map_set c k v) k = Some v"
proof (cases "k \<in> fst ` set c")
  case True
  then show ?thesis
    by (induction c) (auto simp: map_get_def map_set_def)
next
  case False
  then have "map_of c k = None"
    by (simp add: map_of_eq_None_iff)
  with False show ?thesis
    by (simp add: map_get_def map_set_def map_add_def)
qed

lemma map_get_setCachedResponse:
  "map_get (setCachedResponse c now k r) k = Some \<lparr>response = r, timestamp = now\<rparr>"
  by (simp add: setCachedResponse_def Let_def map_get_map_set)

lemma getCachedResponse_fresh:
  assumes "map_get c k = Some \<lparr>response = r, timestamp = t\<rparr>" and "now - t < CACHE_TTL"
  shows "getCachedResponse c now k = (Some r, c)"
  using assms by (simp add: getCachedResponse_def)

lemma routeRequest_hit:
  assumes "getCachedResponse c (now_lookup env) (route_key env text m doc) = (Some r, c1)"
    and "r \<noteq> []"
  shows "routeRequest env c text m doc = (Inr r, c1, [])"
  using assms by (simp add: routeRequest_def route_key_def Let_def truthy_def)

lemma routeRequest_answered:
  assumes "cache_miss env c text m doc" and "route_answer env text m doc = Some a"
  shows "fst (routeRequest env c text m doc) = Inr (clean a)"
    and "fst (snd (routeRequest env c text m doc)) =
           setCachedResponse (snd (getCachedResponse c (now_lookup env) (route_key env text m doc)))
             (now_store env) (route_key env text m doc) (clean a)"
    and "snd (snd (routeRequest env c text m doc)) \<noteq> []"
  using assms(2)
  by (auto simp: routeRequest_miss[OF assms(1)] route_answer_def Let_def
      split: sum.splits if_splits)

lemma route_key_same:
  assumes "md5_hex env2 = md5_hex env1" and "truthy doc2 = truthy doc"
  shows "route_key env2 text m2 doc2 = route_key env1 text m doc"
  using assms by (simp add: route_key_def getCacheKey_def)

lemma routeRequest_served_entry:
  assumes "route_served env c text m doc" and "fst (routeRequest env c text m doc) = Inr r"
  shows "\<exists>e. map_get (fst (snd (routeRequest env c text m doc))) (route_key env text m doc) = Some e \<and>
             response e = r"
proof (cases "cache_miss env c text m doc")
  case True
  with assms(1) obtain a where a: "route_answer env text m doc = Some a"
    by (auto simp: route_served_def)
  from routeRequest_answered(1)[OF True a] assms(2) have "r = clean a" by simp
  then show ?thesis
    by (simp add: routeRequest_answered(2)[OF True a] map_get_setCachedResponse)
next
  case False
  then obtain e where e: "map_get c (route_key env text m doc) = Some e"
    and hit: "getCachedResponse c (now_lookup env) (route_key env text m doc) = (Some (response e), c)"
    and ne: "response e \<noteq> []"
    by (auto simp: cache_miss_def getCachedResponse_def truthy_def
        split: option.splits if_splits)
  from routeRequest_hit[OF hit ne] assms(2) e show ?thesis by simp
qed

text \<open>
  C7, as the code has it. Take two calls of \<open>routeRequest\<close> with the same query text and the
  same document-presence flag (and any memory snippets, identical ones included). If the
  first call completes successfully, from the cache or from a backend, with a reply that is
  not empty, and if at the second call's look-up the cache still has under the fingerprint
  the entry that the first call read or stored (nothing has been stored under that
  fingerprint in between) and this entry is less than \<open>CACHE_TTL\<close> old, then the second call
  returns the same reply text, invokes no backend and leaves the cache as it is. For a first
  call that a backend answered, the age of the entry is the time since that call stored it.
\<close>

theorem routeRequest_repeated_within_ttl:
  assumes "route_served env1 c text m doc"
    and "fst (routeRequest env1 c text m doc) = Inr r"
    and "r \<noteq> []"
    and "md5_hex env2 = md5_hex env1"
    and "truthy doc2 = truthy doc"
    and "map_get c2 (route_key env1 text m doc) =
         map_get (fst (snd (routeRequest env1 c text m doc))) (route_key env1 text m doc)"
    and "\<forall>e. map_get c2 (route_key env1 text m doc) = Some e \<longrightarrow>
             now_lookup env2 - timestamp e < CACHE_TTL"
  shows "routeRequest env2 c2 text m2 doc2 = (Inr r, c2, [])"
proof -
  let ?k = "route_key env1 text m doc"
  from routeRequest_served_entry[OF assms(1,2)] assms(6)
  obtain e where e: "map_get c2 ?k = Some e" and r: "response e = r"
    by auto
  with assms(7) have "getCachedResponse c2 (now_lookup env2) ?k = (Some r, c2)"
    by (simp add: getCachedResponse_def)
  then have "getCachedResponse c2 (now_lookup env2) (route_key env2 text m2 doc2) = (Some r, c2)"
    by (simp add: route_key_same[OF assms(4,5), of "text" m2 m])
  then show ?thesis
    using assms(3) by (rule routeRequest_hit)
qed

text \<open>
  C7 as stated fails for an empty reply. Gemini Flash answers the greeting \<open>Hi there\<close> with the
  empty text; the call resolves with the empty string and stores it. One second later the
  same call finds the entry, but \<open>if (cachedResponse)\<close> takes the empty string for a miss,
  and Gemini Flash is invoked again.
\<close>

theorem routeRequest_empty_reply_asked_again:
  "fst (routeRequest silent_env [] (js ''Hi there'') [] None) = Inr [] \<and>
   snd (snd (routeRequest silent_env [] (js ''Hi there'') [] None)) = [GeminiFlash] \<and>
   now_lookup (silent_env\<lparr>now_lookup := 3000\<rparr>) - now_store silent_env < CACHE_TTL \<and>
   snd (snd (routeRequest (silent_env\<lparr>now_lookup := 3000\<rparr>)
              (fst (snd (routeRequest silent_env [] (js ''Hi there'') [] None)))
              (js ''Hi there'') [] None)) = [GeminiFlash]"
proof -
  let ?q = "js ''Hi there''"
  let ?env2 = "silent_env\<lparr>now_lookup := 3000\<rparr>"
  let ?k = "route_key silent_env ?q [] None"
  have miss: "cache_miss silent_env [] ?q [] None"
    by (simp add: cache_miss_def getCachedResponse_def map_get_def truthy_def)
  have fa: "first_answer env ?q [] None = gemini_reply" if "gemini_flash env = (\<lambda>p. Inr [])" and "gemini_reply = Inr []" for env gemini_reply
    using that by (simp add: first_answer_def first_backend_hi_there call_backend_def callGeminiFlash_def trim_def)
  have fa1: "first_answer silent_env ?q [] None = Inr []"
    by (rule fa) (simp_all add: silent_env_def)
  have fa2: "first_answer ?env2 ?q [] None = Inr []"
    by (rule fa) (simp_all add: silent_env_def)
  have cl: "clean [] = []"
    by (simp add: clean_def strip_name_prefix_def starts_with_ci_def trim_def js_def)
  have ans: "route_answer silent_env ?q [] None = Some []"
    by (simp add: route_answer_def fa1)
  note r1 = routeRequest_answered[OF miss ans]
  have calls1: "snd (snd (routeRequest silent_env [] ?q [] None)) = [GeminiFlash]"
    by (simp add: routeRequest_miss[OF miss] fa1 Let_def first_backend_hi_there)
  let ?c1 = "fst (snd (routeRequest silent_env [] ?q [] None))"
  have k: "route_key ?env2 ?q [] None = ?k"
    by (simp add: route_key_def)
  have "map_get ?c1 ?k = Some \<lparr>response = [], timestamp = now_store silent_env\<rparr>"
    using r1(2) by (simp add: map_get_setCachedResponse cl)
  moreover have ttl: "now_lookup ?env2 - now_store silent_env < CACHE_TTL"
    by (simp add: silent_env_def example_env_def CACHE_TTL_def)
  ultimately have "getCachedResponse ?c1 (now_lookup ?env2) ?k = (Some [], ?c1)"
    by (rule getCachedResponse_fresh)
  then have miss2: "cache_miss ?env2 ?c1 ?q [] None"
    by (simp add: cache_miss_def k truthy_def)
  have calls2: "snd (snd (routeRequest ?env2 ?c1 ?q [] None)) = [GeminiFlash]"
    by (simp add: routeRequest_miss[OF miss2] fa2 Let_def first_backend_hi_there)
  from r1(1) calls1 ttl calls2 cl show ?thesis by simp
qed

lemma hi_there_first_call:
  "cache_miss example_env [] (js ''Hi there'') [] None"
  "route_answer example_env (js ''Hi there'') [] None = Some (js ''Hello there.'')"
  "clean (js ''Hello there.'') = js ''Hello there.''"
  "fst (routeRequest example_env [] (js ''Hi there'') [] None) = Inr (js ''Hello there.'')"
proof -
  let ?q = "js ''Hi there''"
  show miss: "cache_miss example_env [] ?q [] None"
    by (simp add: cache_miss_def getCachedResponse_def map_get_def truthy_def)
  have tr: "trim (js ''Hello there.'') = js ''Hello there.''"
    by (simp add: trim_def js_def is_space_def)
  show ans: "route_answer example_env ?q [] None = Some (js ''Hello there.'')"
    by (simp add: route_answer_def first_answer_def first_backend_hi_there call_backend_def
        callGeminiFlash_def example_env_def tr)
  show cl: "clean (js ''Hello there.'') = js ''Hello there.''"
    by (simp add: clean_def strip_name_prefix_def starts_with_ci_def tr)
       (simp add: js_def lower_ascii_def)
  show "fst (routeRequest example_env [] ?q [] None) = Inr (js ''Hello there.'')"
    using routeRequest_answered(1)[OF miss ans] by (simp add: cl)
qed

text \<open>The first call is answered by Gemini Flash and stores its reply at 2000 ms; the second
  call, with another memory snippet, looks the cache up at 3000 ms.\<close>

theorem routeRequest_repeated_within_ttl_witness:
  "route_served example_env [] (js ''Hi there'') [] None \<and>
   fst (routeRequest example_env [] (js ''Hi there'') [] None) = Inr (js ''Hello there.'') \<and>
   js ''Hello there.'' \<noteq> [] \<and>
   md5_hex (example_env\<lparr>now_lookup := 3000\<rparr>) = md5_hex example_env \<and>
   map_get (fst (snd (routeRequest example_env [] (js ''Hi there'') [] None)))
     (route_key example_env (js ''Hi there'') [] None) =
     Some \<lparr>response = js ''Hello there.'', timestamp = 2000\<rparr> \<and>
   now_lookup (example_env\<lparr>now_lookup := 3000\<rparr>) - 2000 < CACHE_TTL \<and>
   routeRequest (example_env\<lparr>now_lookup := 3000\<rparr>)
     (fst (snd (routeRequest example_env [] (js ''Hi there'') [] None)))
     (js ''Hi there'') (js ''User: Bob'') None =
   (Inr (js ''Hello there.''), fst (snd (routeRequest example_env [] (js ''Hi there'') [] None)), [])"
proof -
  let ?q = "js ''Hi there''"
  let ?c1 = "fst (snd (routeRequest example_env [] ?q [] None))"
  let ?k = "route_key example_env ?q [] None"
  note miss = hi_there_first_call(1) and ans = hi_there_first_call(2)
    and cl = hi_there_first_call(3) and r1 = hi_there_first_call(4)
  have served: "route_served example_env [] ?q [] None"
    by (simp add: route_served_def ans)
  have ne: "js ''Hello there.'' \<noteq> []"
    by (simp add: js_def)
  have md: "md5_hex (example_env\<lparr>now_lookup := 3000\<rparr>) = md5_hex example_env"
    by simp
  have entry: "map_get ?c1 ?k = Some \<lparr>response = js ''Hello there.'', timestamp = 2000\<rparr>"
    by (simp add: routeRequest_answered(2)[OF miss ans] map_get_setCachedResponse cl)
       (simp add: example_env_def)
  have ttl: "now_lookup (example_env\<lparr>now_lookup := 3000\<rparr>) - 2000 < CACHE_TTL"
    by (simp add: CACHE_TTL_def)
  have old: "\<forall>e. map_get ?c1 ?k = Some e \<longrightarrow>
      now_lookup (example_env\<lparr>now_lookup := 3000\<rparr>) - timestamp e < CACHE_TTL"
    using ttl by (simp add: entry)
  from routeRequest_repeated_within_ttl[OF served r1 ne md refl refl old,
      of "js ''User: Bob''"]
    served r1 ne md entry ttl
  show ?thesis by simp
qed

text \<open>
  Why the entry must still be the first call's. Two overlapping calls with the fingerprint
  of \<open>Hi there\<close> both miss the empty cache; the first stores \<open>Hello there.\<close> at 2000 ms, the
  other stores \<open>Other reply.\<close> at 2500 ms, which \<open>Map.set\<close> puts in the place of the first entry.
  A call at 3000 ms then returns \<open>Other reply.\<close>, not what the first call returned.
\<close>

lemma routeRequest_overlapping_store:
  "fst (routeRequest example_env [] (js ''Hi there'') [] None) = Inr (js ''Hello there.'') \<and>
   fst (routeRequest (example_env\<lparr>now_lookup := 3000\<rparr>)
          (setCachedResponse (fst (snd (routeRequest example_env [] (js ''Hi there'') [] None)))
             2500 (route_key example_env (js ''Hi there'') [] None) (js ''Other reply.''))
          (js ''Hi there'') [] None) = Inr (js ''Other reply.'') \<and>
   snd (snd (routeRequest (example_env\<lparr>now_lookup := 3000\<rparr>)
          (setCachedResponse (fst (snd (routeRequest example_env [] (js ''Hi there'') [] None)))
             2500 (route_key example_env (js ''Hi there'') [] None) (js ''Other reply.''))
          (js ''Hi there'') [] None)) = [] \<and>
   js ''Other reply.'' \<noteq> js ''Hello there.''"
proof -
  let ?q = "js ''Hi there''"
  let ?k = "route_key example_env ?q [] None"
  let ?c2 = "setCachedResponse (fst (snd (routeRequest example_env [] ?q [] None))) 2500 ?k
      (js ''Other reply.'')"
  note r1 = hi_there_first_call(4)
  have "map_get ?c2 ?k = Some \<lparr>response = js ''Other reply.'', timestamp = 2500\<rparr>"
    by (rule map_get_setCachedResponse)
  moreover have "now_lookup (example_env\<lparr>now_lookup := 3000\<rparr>) - 2500 < CACHE_TTL"
    by (simp add: CACHE_TTL_def)
  ultimately have "getCachedResponse ?c2 (now_lookup (example_env\<lparr>now_lookup := 3000\<rparr>)) ?k =
      (Some (js ''Other reply.''), ?c2)"
    by (rule getCachedResponse_fresh)
  then have "getCachedResponse ?c2 (now_lookup (example_env\<lparr>now_lookup := 3000\<rparr>))
      (route_key (example_env\<lparr>now_lookup := 3000\<rparr>) ?q [] None) = (Some (js ''Other reply.''), ?c2)"
    by (simp add: route_key_def)
  moreover have ne: "js ''Other reply.'' \<noteq> []" "js ''Other reply.'' \<noteq> js ''Hello there.''"
    by (simp_all add: js_def)
  ultimately have "routeRequest (example_env\<lparr>now_lookup := 3000\<rparr>) ?c2 ?q [] None =
      (Inr (js ''Other reply.''), ?c2, [])"
    by (intro routeRequest_hit)
  with r1 ne show ?thesis by simp
qed

text \<open>
  Why the age of the entry counts, not the time since the first call. The entry for \<open>Hi\<close> was
  stored at 0 ms. A first call at 299000 ms hits it; a second call two seconds later finds it
  expired and invokes Gemini Flash.
\<close>

lemma routeRequest_expired_after_hit:
  "routeRequest (example_env\<lparr>now_lookup := 299000\<rparr>) hi_cache (js ''Hi'') [] None =
     (Inr (js ''Hello there.''), hi_cache, []) \<and>
   snd (snd (routeRequest (example_env\<lparr>now_lookup := 301000\<rparr>) hi_cache (js ''Hi'') [] None)) =
     [GeminiFlash]"
proof -
  have key: "route_key (example_env\<lparr>now_lookup := t\<rparr>) (js ''Hi'') [] None = js ''hino-doc''" for t
    by (simp add: route_key_def getCacheKey_def toLowerCase_def trim_def is_word_def is_space_def
        js_def example_env_def truthy_def)
  have ne: "js ''Hello there.'' \<noteq> []"
    by (simp add: js_def)
  have "getCachedResponse hi_cache (now_lookup (example_env\<lparr>now_lookup := 299000\<rparr>))
      (route_key (example_env\<lparr>now_lookup := 299000\<rparr>) (js ''Hi'') [] None) =
      (Some (js ''Hello there.''), hi_cache)"
    by (simp add: key) (simp add: getCachedResponse_def map_get_def hi_cache_def CACHE_TTL_def)
  then have first: "routeRequest (example_env\<lparr>now_lookup := 299000\<rparr>) hi_cache (js ''Hi'') [] None =
     (Inr (js ''Hello there.''), hi_cache, [])"
    using ne by (rule routeRequest_hit)
  have miss: "cache_miss (example_env\<lparr>now_lookup := 301000\<rparr>) hi_cache (js ''Hi'') [] None"
    by (simp add: cache_miss_def key)
       (simp add: getCachedResponse_def map_get_def hi_cache_def CACHE_TTL_def truthy_def)
  have cls: "classifyIntent (js ''Hi'') = \<lparr>itype = IGreeting, icomplexity = CSimple\<rparr>"
    by (simp add: classifyIntent_def rx_email_def rx_calendar_def rx_document_def rx_greeting_def
        rx_eval)
  have fb: "first_backend (js ''Hi'') None = GeminiFlash"
    by (simp add: first_backend_def cls primary_backend_def document_mode_def truthy_def)
  have fa: "first_answer (example_env\<lparr>now_lookup := 301000\<rparr>) (js ''Hi'') [] None =
      Inr (trim (js ''Hello there.''))"
    by (simp add: first_answer_def fb call_backend_def callGeminiFlash_def example_env_def)
  have "snd (snd (routeRequest (example_env\<lparr>now_lookup := 301000\<rparr>) hi_cache (js ''Hi'') [] None)) =
     [GeminiFlash]"
    by (simp add: routeRequest_miss[OF miss] Let_def fb fa)
  with first show ?thesis by simp
qed

section \<open>Properties of the turn controller\<close>

subsection \<open>The pieces of a turn and the list of fired tokens\<close>

lemma aborted_updateMemory: "aborted (updateMemory st u b) = aborted st"
  by (simp add: updateMemory_def send_def Let_def)

lemma aborted_turn_failed: "aborted (turn_failed st e) = aborted st"
  by (simp add: turn_failed_def send_def Let_def)

lemma aborted_after_route: "aborted (fst (after_route st t outcome)) = aborted st"
  by (simp add: after_route_def send_def Let_def aborted_updateMemory aborted_turn_failed
      split: sum.splits option.splits)

lemma interrupt_facts:
  "sink (interrupt st) = sink st @ [StopAudio]"
  "currentTTSController (interrupt st) = None"
  "\<not> processingAudio (interrupt st)"
  "currentTTSController st = Some c \<Longrightarrow> c \<in> set (aborted (interrupt st))"
  "currentTTSController st = None \<Longrightarrow> aborted (interrupt st) = aborted st"
  by (simp_all add: interrupt_def send_def Let_def split: option.splits)

lemma interrupt_server_facts:
  "sink (interrupt_server st) = sink st @ [StopAudio]"
  "\<not> processingAudio (interrupt_server st)"
  "currentTTSController st = Some c \<Longrightarrow> c \<in> set (aborted (interrupt_server st))"
  "currentTTSController st = None \<Longrightarrow> aborted (interrupt_server st) = aborted st"
  by (simp_all add: interrupt_server_def send_def Let_def split: option.splits)

text \<open>An interim event of more than two code units on a connection that is processing: the
  interrupt comes first, and the only thing the rest of the handler does is to pass the
  interim transcript on.\<close>

lemma onResults_barge_in:
  assumes "isOpen st" "processingAudio st" "\<not> is_final ev" "length (transcript ev) > 2"
  shows "onResults st ev =
           (if trim (transcript ev) = [] then interrupt st
            else send (interrupt st) (Transcript (transcript ev) False))"
  using assms by (simp add: onResults_def Let_def)

lemma onResults_server_barge_in:
  assumes "isOpen st" "processingAudio st" "\<not> is_final ev" "length (transcript ev) > 3"
  shows "onResults_server st ev =
           (if trim (transcript ev) = [] then interrupt_server st
            else send (interrupt_server st) (Transcript (transcript ev) False))"
  using assms by (simp add: onResults_server_def Let_def)

subsection \<open>The example connection\<close>

lemma wait_facts: "length (js ''wait'') = 4" "trim (js ''wait'') \<noteq> []"
  by (simp_all add: trim_def js_def is_space_def)

lemma why_facts: "js ''Why?'' \<noteq> []" "js ''Here is a longer answer.'' \<noteq> []"
  by (simp_all add: js_def)

lemma nameMatch_why: "nameMatch (js ''Why?'') = None"
  by (simp add: js_def name_here_def name_after_def starts_with_ci_def lower_ascii_def)

lemma why_armed:
  "onResults idle_conn ev_why =
     idle_conn\<lparr>sink := [Transcript (js ''Why?'') True],
       transcriptTimeout := Some \<lparr>timer_id = 0, timer_text = js ''Why?'', timer_delay = 100\<rparr>,
       timers_made := 1\<rparr>"
  by (simp add: onResults_def Let_def ev_why_def nameMatch_why shouldProcess_def send_def
      idle_conn_def)
     (simp add: trim_def js_def is_space_def)

lemma why_timer_fires:
  "timer_fires (onResults idle_conn ev_why) =
     (idle_conn\<lparr>sink := [Transcript (js ''Why?'') True, Status (js ''Thinking...'')],
        timers_made := 1, processingAudio := True\<rparr>, Some turn_why, CallAction (js ''Why?''))"
  unfolding why_armed
  by (simp add: timer_fires_def Let_def idle_conn_def send_def truthy_def memoryContext_of_def
      turn_why_def)

lemma after_action_null:
  "after_action st t (Inr None) =
     (st\<lparr>currentTTSController := Some (controllers_made st),
         controllers_made := Suc (controllers_made st)\<rparr>,
      CallRoute (turn_transcript t) (turn_memoryContext t) (turn_documentContent t)
        (controllers_made st))"
  by (simp add: after_action_def new_controller_def)

text \<open>The final event \<open>Why?\<close> on the new connection starts a turn; when \<open>handleAction\<close> has
  answered \<open>null\<close> the turn holds the token 0 and waits for \<open>routeRequest\<close>.\<close>

lemma thinking_conn_reached:
  "after_action (fst (timer_fires (onResults idle_conn ev_why))) turn_why (Inr None) =
     (thinking_conn, CallRoute (js ''Why?'') [] None 0)"
  by (simp add: why_timer_fires after_action_null)
     (simp add: thinking_conn_def idle_conn_def turn_why_def)

lemma thinking_conn_facts:
  "isOpen thinking_conn" "processingAudio thinking_conn" "\<not> is_final ev_wait"
  "length (transcript ev_wait) > 2" "length (transcript ev_wait) > 3"
  "currentTTSController thinking_conn = Some 0" "confidence ev_wait < 1 / 2"
  by (simp_all add: thinking_conn_def idle_conn_def ev_wait_def wait_facts)

lemma interrupted_conn_reached: "onResults thinking_conn ev_wait = interrupted_conn"
  by (simp add: onResults_barge_in[OF thinking_conn_facts(1-4)])
     (simp add: ev_wait_def wait_facts interrupt_def send_def thinking_conn_def
        interrupted_conn_def idle_conn_def)

lemma classify_why: "classifyIntent (js ''Why?'') = \<lparr>itype = IGeneral, icomplexity = CMedium\<rparr>"
  by (simp add: classifyIntent_def rx_email_def rx_calendar_def rx_document_def rx_greeting_def
      rx_not_simple_def rx_complex_a_def rx_complex_b_def rx_complex_c_def rx_eval)

lemma first_backend_why: "first_backend (js ''Why?'') None = GeminiPro"
  by (simp add: first_backend_def classify_why primary_backend_def document_mode_def truthy_def)

lemma cache_miss_empty: "cache_miss env [] t m doc"
  by (simp add: cache_miss_def getCachedResponse_def map_get_def truthy_def)

text \<open>What \<open>routeRequest\<close> gives the turn for \<open>Why?\<close>: the answer of Gemini Pro where every
  backend answers, and the rejection where Gemini Pro rejects with an \<open>AbortError\<close>.\<close>

lemma route_why:
  "fst (routeRequest example_env [] (js ''Why?'') [] None) = Inr (js ''Here is a longer answer.'')"
proof -
  have tr: "trim (js ''Here is a longer answer.'') = js ''Here is a longer answer.''"
    by (simp add: trim_def js_def is_space_def)
  have fa: "first_answer example_env (js ''Why?'') [] None = Inr (js ''Here is a longer answer.'')"
    by (simp add: first_answer_def first_backend_why call_backend_def callGeminiPro_def
        example_env_def tr)
  have cl: "clean (js ''Here is a longer answer.'') = js ''Here is a longer answer.''"
    by (simp add: clean_def strip_name_prefix_def starts_with_ci_def tr)
       (simp add: js_def lower_ascii_def)
  show ?thesis
    by (simp add: routeRequest_miss[OF cache_miss_empty] fa Let_def cl)
qed




subsection \<open>Barge-in\<close>

text \<open>
  Claim C2. On an open connection that is processing a turn, an interim event of more than two
  code units has the stop-playback message sent before anything else and the token that the
  connection holds fired; the confidence of the event plays no part, and whatever the pending
  \<open>routeRequest\<close> call gives later, the token has been fired when the turn goes on. The
  connection then holds no token and is no longer marked as processing. The handler of
  \<open>backend/server.js\<close> does the same for more than three code units, keeping the token in
  place.
\<close>

theorem barge_in_comes_first:
  assumes "isOpen st" "processingAudio st" "\<not> is_final ev" "length (transcript ev) > 2"
  shows "(\<exists>rest. sink (onResults st ev) = sink st @ StopAudio # rest) \<and>
         (\<forall>c. currentTTSController st = Some c \<longrightarrow>
            c \<in> set (aborted (onResults st ev)) \<and>
            (\<forall>t outcome. c \<in> set (aborted (fst (after_route (onResults st ev) t outcome))))) \<and>
         currentTTSController (onResults st ev) = None \<and>
         \<not> processingAudio (onResults st ev) \<and>
         (length (transcript ev) > 3 \<longrightarrow>
            (\<exists>rest. sink (onResults_server st ev) = sink st @ StopAudio # rest) \<and>
            (\<forall>c. currentTTSController st = Some c \<longrightarrow> c \<in> set (aborted (onResults_server st ev))) \<and>
            \<not> processingAudio (onResults_server st ev))"
proof -
  have a: "(\<exists>rest. sink (onResults st ev) = sink st @ StopAudio # rest)"
    by (simp add: onResults_barge_in[OF assms] interrupt_facts send_def)
  have b: "c \<in> set (aborted (onResults st ev))" if "currentTTSController st = Some c" for c
    using interrupt_facts(4)[OF that] by (simp add: onResults_barge_in[OF assms] send_def)
  have c: "currentTTSController (onResults st ev) = None" "\<not> processingAudio (onResults st ev)"
    by (simp_all add: onResults_barge_in[OF assms] interrupt_facts send_def)
  have d: "(\<exists>rest. sink (onResults_server st ev) = sink st @ StopAudio # rest) \<and>
            (\<forall>c. currentTTSController st = Some c \<longrightarrow> c \<in> set (aborted (onResults_server st ev))) \<and>
            \<not> processingAudio (onResults_server st ev)" if "length (transcript ev) > 3"
    using interrupt_server_facts(3)[of st]
    by (simp add: onResults_server_barge_in[OF assms(1-3) that] interrupt_server_facts send_def)
  from a b c d show ?thesis by (simp add: aborted_after_route)
qed

text \<open>The turn for \<open>Why?\<close> waits for \<open>routeRequest\<close> with the token 0 when an interim \<open>wait\<close> of
  confidence 0.375 comes in.\<close>

theorem barge_in_comes_first_witness:
  "isOpen thinking_conn \<and> processingAudio thinking_conn \<and> \<not> is_final ev_wait \<and>
   length (transcript ev_wait) > 3 \<and> confidence ev_wait < 1 / 2 \<and>
   currentTTSController thinking_conn = Some 0 \<and>
   sink (onResults thinking_conn ev_wait) =
     sink thinking_conn @ [StopAudio, Transcript (js ''wait'') False] \<and>
   0 \<in> set (aborted (onResults thinking_conn ev_wait)) \<and>
   0 \<in> set (aborted (fst (after_route (onResults thinking_conn ev_wait) turn_why
                             (Inr (js ''Here is a longer answer.''))))) \<and>
   currentTTSController (onResults thinking_conn ev_wait) = None \<and>
   \<not> processingAudio (onResults thinking_conn ev_wait) \<and>
   0 \<in> set (aborted (onResults_server thinking_conn ev_wait))"
proof -
  have s: "sink (onResults thinking_conn ev_wait) =
     sink thinking_conn @ [StopAudio, Transcript (js ''wait'') False]"
    by (simp add: interrupted_conn_reached) (simp add: interrupted_conn_def thinking_conn_def)
  from barge_in_comes_first[OF thinking_conn_facts(1-4)] thinking_conn_facts s
  show ?thesis by simp
qed

lemma nameMatch_email: "nameMatch (js ''Send an email to bob@example.com'') = None"
  by (simp add: js_def name_here_def name_after_def starts_with_ci_def lower_ascii_def)

lemma email_armed:
  "onResults idle_conn ev_email =
     idle_conn\<lparr>sink := [Transcript (js ''Send an email to bob@example.com'') True],
       transcriptTimeout := Some \<lparr>timer_id = 0, timer_text = js ''Send an email to bob@example.com'',
                                  timer_delay = 100\<rparr>,
       timers_made := 1\<rparr>"
  by (simp add: onResults_def Let_def ev_email_def nameMatch_email shouldProcess_def send_def
      idle_conn_def)
     (simp add: trim_def js_def is_space_def)

lemma email_timer_fires:
  "timer_fires (onResults idle_conn ev_email) =
     (acting_conn, Some turn_email, CallAction (js ''Send an email to bob@example.com''))"
  unfolding email_armed
  by (simp add: timer_fires_def Let_def idle_conn_def send_def truthy_def memoryContext_of_def
      turn_email_def acting_conn_def)

lemma acting_conn_facts:
  "isOpen acting_conn" "processingAudio acting_conn" "currentTTSController acting_conn = None"
  "aborted acting_conn = []" "controllers_made acting_conn = 0"
  by (simp_all add: acting_conn_def idle_conn_def)

lemma acting_conn_interrupted:
  "onResults acting_conn ev_wait =
     acting_conn\<lparr>sink := sink acting_conn @ [StopAudio, Transcript (js ''wait'') False],
       processingAudio := False\<rparr>"
  by (simp add: onResults_barge_in[OF acting_conn_facts(1,2) thinking_conn_facts(3,4)])
     (simp add: ev_wait_def wait_facts interrupt_def send_def acting_conn_def idle_conn_def)

lemma acting_conn_interrupted_server:
  "onResults_server acting_conn ev_wait =
     acting_conn\<lparr>sink := sink acting_conn @ [StopAudio, Transcript (js ''wait'') False],
       processingAudio := False\<rparr>"
  by (simp add: onResults_server_barge_in[OF acting_conn_facts(1,2) thinking_conn_facts(3,5)])
     (simp add: ev_wait_def wait_facts interrupt_server_def send_def acting_conn_def idle_conn_def)

text \<open>
  Against the wording of claim C2 without a condition on the token: the turn for the email
  request waits for \<open>handleAction\<close>, which waits for the mail service; the connection is
  processing and holds no token yet. The interim \<open>wait\<close> has the stop-playback message sent and
  fires nothing, in either handler. When the mail service has refused, the turn goes on: it
  sends its reply and the speaking status, makes the token 0, which nobody has fired, and
  calls the streamer.
\<close>

theorem barge_in_finds_no_token:
  "timer_fires (onResults idle_conn ev_email) =
     (acting_conn, Some turn_email, CallAction (transcript ev_email)) \<and>
   processingAudio acting_conn \<and> currentTTSController acting_conn = None \<and>
   \<not> is_final ev_wait \<and> length (transcript ev_wait) = 4 \<and>
   sink (onResults acting_conn ev_wait) =
     sink acting_conn @ [StopAudio, Transcript (js ''wait'') False] \<and>
   aborted (onResults acting_conn ev_wait) = [] \<and>
   aborted (onResults_server acting_conn ev_wait) = [] \<and>
   snd (after_action (onResults acting_conn ev_wait) turn_email (Inr (Some email_refused))) =
     CallTTS email_refused 0 (Some (js ''en-US-terrell'')) \<and>
   aborted (fst (after_action (onResults acting_conn ev_wait) turn_email
                   (Inr (Some email_refused)))) = [] \<and>
   sink (fst (after_action (onResults acting_conn ev_wait) turn_email (Inr (Some email_refused)))) =
     sink (onResults acting_conn ev_wait) @
       [Reply email_refused, Status (js ''Speaking...''),
        MemoryUpdate None [(js ''Send an email to bob@example.com'', email_refused)]]"
proof -
  have ne: "email_refused \<noteq> []" "js ''Send an email to bob@example.com'' \<noteq> []"
    by (simp_all add: email_refused_def js_def)
  have a: "after_action (onResults acting_conn ev_wait) turn_email (Inr (Some email_refused)) =
     (acting_conn\<lparr>sink := sink acting_conn @ [StopAudio, Transcript (js ''wait'') False] @
         [Reply email_refused, Status (js ''Speaking...''),
          MemoryUpdate None [(js ''Send an email to bob@example.com'', email_refused)]],
        processingAudio := False,
        memory := \<lparr>userName = None,
                   lastUserMessages = [js ''Send an email to bob@example.com''],
                   lastBotMessages = [email_refused]\<rparr>,
        currentTTSController := Some 0, controllers_made := 1\<rparr>,
      CallTTS email_refused 0 (Some (js ''en-US-terrell'')))"
    unfolding acting_conn_interrupted
    by (simp add: after_action_def Let_def updateMemory_def remember_def turn_email_def ne
        send_def new_controller_def acting_conn_def idle_conn_def enumerate_eq_zip)
  show ?thesis
    unfolding a
    by (simp add: email_timer_fires acting_conn_facts acting_conn_interrupted
        acting_conn_interrupted_server)
       (simp add: ev_email_def ev_wait_def wait_facts)
qed

subsection \<open>Candidates for the end of a turn\<close>

lemma onResults_final_idle:
  assumes "isOpen st" "\<not> processingAudio st" "is_final ev"
  shows "timers_made (onResults st ev) =
           (if passes_gates ev \<and> shouldProcess ev then Suc (timers_made st) else timers_made st)"
    and "passes_gates ev \<and> shouldProcess ev \<Longrightarrow>
           transcriptTimeout (onResults st ev) =
             Some \<lparr>timer_id = timers_made st, timer_text = transcript ev,
                   timer_delay = (if speech_final ev then 100 else 400)\<rparr>"
  using assms
  by (auto simp: onResults_def passes_gates_def Let_def send_def split: option.splits)

lemma onResults_server_final_idle:
  assumes "isOpen st" "\<not> processingAudio st" "is_final ev"
  shows "timers_made (onResults_server st ev) =
           (if passes_gates ev \<and> shouldProcess_server ev then Suc (timers_made st) else timers_made st)"
    and "passes_gates ev \<and> shouldProcess_server ev \<Longrightarrow>
           transcriptTimeout (onResults_server st ev) =
             Some \<lparr>timer_id = timers_made st, timer_text = transcript ev,
                   timer_delay = (if speech_final ev then 80 else 400)\<rparr>"
  using assms
  by (auto simp: onResults_server_def passes_gates_def Let_def send_def split: option.splits)

text \<open>
  Claim C4. A final event that comes in on an open connection while no turn is processed
  becomes a candidate exactly when it passes the noise filter, keeps more than one code unit
  after trimming, and one of these holds: it carries the end-of-speech marker, its text has
  more than 8 code units, its text contains a question mark, or its confidence is above 0.9.
  In the handler of \<open>backend/server.js\<close> the limit is 10 code units and a full stop counts like
  a question mark.
\<close>

theorem final_event_becomes_candidate:
  assumes "isOpen st" "\<not> processingAudio st" "is_final ev"
  shows "(becomes_candidate st (onResults st ev) ev \<longleftrightarrow>
            passes_gates ev \<and>
            (speech_final ev \<or> length (transcript ev) > 8 \<or>
             js_includes (js ''?'') (transcript ev) \<or> confidence ev > HIGH_CONFIDENCE)) \<and>
         (becomes_candidate st (onResults_server st ev) ev \<longleftrightarrow>
            passes_gates ev \<and>
            (speech_final ev \<or> length (transcript ev) > 10 \<or>
             js_includes (js ''?'') (transcript ev) \<or> js_includes (js ''.'') (transcript ev) \<or>
             confidence ev > HIGH_CONFIDENCE))"
  using onResults_final_idle[OF assms] onResults_server_final_idle[OF assms]
  by (auto simp: becomes_candidate_def shouldProcess_def shouldProcess_server_def)

lemma idle_conn_facts: "isOpen idle_conn" "\<not> processingAudio idle_conn"
  by (simp_all add: idle_conn_def)

text \<open>The final \<open>Why?\<close> with the end-of-speech marker becomes a candidate in both handlers.\<close>

theorem final_event_becomes_candidate_witness:
  "isOpen idle_conn \<and> \<not> processingAudio idle_conn \<and> is_final ev_why \<and>
   passes_gates ev_why \<and> speech_final ev_why \<and>
   becomes_candidate idle_conn (onResults idle_conn ev_why) ev_why \<and>
   becomes_candidate idle_conn (onResults_server idle_conn ev_why) ev_why"
proof -
  have h: "is_final ev_why"
    by (simp add: ev_why_def)
  have g: "passes_gates ev_why" "speech_final ev_why"
    by (simp_all add: passes_gates_def ev_why_def trim_def js_def is_space_def)
  from final_event_becomes_candidate[OF idle_conn_facts h] idle_conn_facts h g
  show ?thesis by simp
qed

text \<open>
  Against the wording of claim C4 without the two tests that come first, and with the full
  stop in both handlers: a final event with the end-of-speech marker and no text is dropped;
  a final question mark alone, of confidence 0.9375, is dropped because one code unit is left
  after trimming; and a final \<open>Okay.\<close> of confidence 0.75 is a candidate in the handler of
  \<open>backend/server.js\<close> and none in the production server, which does not look for a full stop.
\<close>

theorem marked_final_event_dropped:
  "is_final ev_silence \<and> speech_final ev_silence \<and>
   \<not> becomes_candidate idle_conn (onResults idle_conn ev_silence) ev_silence \<and>
   \<not> becomes_candidate idle_conn (onResults_server idle_conn ev_silence) ev_silence \<and>
   is_final ev_mark \<and> js_includes (js ''?'') (transcript ev_mark) \<and>
   confidence ev_mark > HIGH_CONFIDENCE \<and>
   \<not> becomes_candidate idle_conn (onResults idle_conn ev_mark) ev_mark \<and>
   \<not> becomes_candidate idle_conn (onResults_server idle_conn ev_mark) ev_mark \<and>
   is_final ev_okay \<and> js_includes (js ''.'') (transcript ev_okay) \<and>
   \<not> becomes_candidate idle_conn (onResults idle_conn ev_okay) ev_okay \<and>
   becomes_candidate idle_conn (onResults_server idle_conn ev_okay) ev_okay"
proof -
  have h: "is_final ev_silence" "is_final ev_mark" "is_final ev_okay"
    by (simp_all add: ev_silence_def ev_mark_def ev_okay_def)
  have g: "\<not> passes_gates ev_silence" "\<not> passes_gates ev_mark" "passes_gates ev_okay"
    by (simp_all add: passes_gates_def ev_silence_def ev_mark_def ev_okay_def trim_def js_def
        is_space_def)
  have m: "js_includes (js ''?'') (transcript ev_mark)" "confidence ev_mark > HIGH_CONFIDENCE"
    "speech_final ev_silence" "js_includes (js ''.'') (transcript ev_okay)"
    by (simp_all add: ev_mark_def ev_silence_def ev_okay_def js_def starts_with_def
        HIGH_CONFIDENCE_def)
  have o: "\<not> shouldProcess ev_okay" "shouldProcess_server ev_okay"
    by (simp_all add: shouldProcess_def shouldProcess_server_def ev_okay_def js_def
        starts_with_def HIGH_CONFIDENCE_def)
  have t: "timers_made idle_conn = 0" "transcriptTimeout idle_conn = None"
    by (simp_all add: idle_conn_def)
  from onResults_final_idle(1)[OF idle_conn_facts h(1)]
    onResults_final_idle(1)[OF idle_conn_facts h(2)]
    onResults_final_idle(1)[OF idle_conn_facts h(3)]
    onResults_server_final_idle(1)[OF idle_conn_facts h(1)]
    onResults_server_final_idle(1)[OF idle_conn_facts h(2)]
    onResults_server_final_idle[OF idle_conn_facts h(3)]
    g h m o t
  show ?thesis by (simp add: becomes_candidate_def)
qed

subsection \<open>Cancelled turns\<close>




text \<open>
  The reply that comes in after the barge-in. The interrupt has fired the token and emptied
  \<open>currentTTSController\<close>; the piece behind \<open>routeRequest\<close> does not look at the token. When the
  call resolves with a reply all the same, the memory is updated and the reply and the
  speaking status are sent; then reading \<open>currentTTSController.signal\<close> fails, and the \<open>catch\<close>
  block reports a processing error to the client.
\<close>

lemma late_reply_after_barge_in:
  "after_route (onResults thinking_conn ev_wait) turn_why
     (fst (routeRequest example_env [] (js ''Why?'') [] None)) =
   (interrupted_conn\<lparr>
      memory := \<lparr>userName = None, lastUserMessages = [js ''Why?''],
                 lastBotMessages = [js ''Here is a longer answer.'']\<rparr>,
      sink := sink interrupted_conn @
          [MemoryUpdate None [(js ''Why?'', js ''Here is a longer answer.'')],
           Reply (js ''Here is a longer answer.''),
           Status (js ''Speaking...''),
           ErrorMsg (js ''Processing error: '' @
                     js ''Cannot read properties of null (reading 'signal')''),
           Status (js ''Listening...'')]\<rparr>, Finished)"
proof -
  have ab: "\<not> is_abort null_signal_error"
    by (simp add: is_abort_def null_signal_error_def js_def)
  show ?thesis
    unfolding interrupted_conn_reached route_why
    by (simp add: after_route_def Let_def updateMemory_def remember_def turn_why_def why_facts
        send_def interrupted_conn_def idle_conn_def turn_failed_def ab enumerate_eq_zip)
       (simp add: null_signal_error_def)
qed


section \<open>Properties of the chunker\<close>

subsection \<open>Strings\<close>

lemma js_append: "js a @ js b = js (a @ b)"
  by (simp add: js_def)

lemma length_js: "length (js s) = length s"
  by (simp add: js_def)

lemma js_Nil_iff: "js s = [] \<longleftrightarrow> s = []"
  by (simp add: js_def)

lemma trim_id:
  assumes "s \<noteq> []" "\<not> is_space (hd s)" "\<not> is_space (last s)"
  shows "trim s = s"
proof -
  from assms have a: "dropWhile is_space s = s"
    by (cases s) auto
  from assms have b: "dropWhile is_space (rev s) = rev s"
    by (cases s rule: rev_cases) auto
  show ?thesis
    by (simp add: trim_def a b)
qed

lemma trim_js_id:
  assumes "s \<noteq> []" "\<not> is_space (of_char (hd s))" "\<not> is_space (of_char (last s))"
  shows "trim (js s) = js s"
  using assms by (intro trim_id) (simp_all add: js_def hd_map last_map)

lemma trim_snoc_space:
  assumes "is_space c"
  shows "trim (s @ [c]) = trim s"
proof (cases "\<forall>x\<in>set s. is_space x")
  case True
  then have d: "dropWhile is_space s = []"
    by simp
  from assms show ?thesis
    by (simp add: trim_def dropWhile_append d True)
next
  case False
  with assms show ?thesis
    by (auto simp add: trim_def dropWhile_append)
qed


lemma length_trim_le: "length (trim s) \<le> length s"
proof -
  have "length (trim s) \<le> length (dropWhile is_space s)"
    using length_dropWhile_le[of is_space "rev (dropWhile is_space s)"] by (simp add: trim_def)
  also have "\<dots> \<le> length s"
    by (rule length_dropWhile_le)
  finally show ?thesis .
qed

lemma trim_leading_space: "trim (js '' '' @ p) = trim p"
  by (simp add: trim_def js_def is_space_def)


subsection \<open>The chunks of the example texts\<close>















lemma bridge_sanitize: "sanitizeForTTS bridge_text = bridge_text"
  by (simp add: bridge_text_def sanitizeForTTS_def Let_def strip_name_prefix_def starts_with_ci_def
      trim_def is_space_def lower_ascii_def js_def)

lemma bridge_sentences: "split_rx sentence_sep bridge_text =
    [js ''Sure.'',
     js ''The old stone bridge crosses the river just north of the market square, which is why the weekly fair has been held on the southern bank for years , so most visitors walk over it on their way to the castle.'']"
  by (simp add: bridge_text_def split_rx_def sentence_sep_def ws_run_def is_space_def js_def)

lemma bridge_step1: "add_sentence
     ([],
      [])
     (js ''Sure.'') =
     ([],
      js ''Sure.'')"
  by (simp add: add_sentence_def Let_def length_js js_append js_Nil_iff)

lemma bridge_parts2: "split_rx clause_sep
    (js ''The old stone bridge crosses the river just north of the market square, which is why the weekly fair has been held on the southern bank for years , so most visitors walk over it on their way to the castle.'') =
    [js ''The old stone bridge crosses the river just north of the market square'',
     js ''which is why the weekly fair has been held on the southern bank for years '',
     js ''so most visitors walk over it on their way to the castle.'']"
  by (simp add: split_rx_def clause_sep_def lit_ws_def ws_lit_ws_def ws_run_def starts_with_def
      is_space_def js_def)

lemma bridge_step2: "add_sentence
     ([],
      js ''Sure.'')
     (js ''The old stone bridge crosses the river just north of the market square, which is why the weekly fair has been held on the southern bank for years , so most visitors walk over it on their way to the castle.'') =
     foldl add_part
     ([js ''Sure.''],
      js ''Sure.'')
     [js ''The old stone bridge crosses the river just north of the market square'',
     js ''which is why the weekly fair has been held on the southern bank for years '',
     js ''so most visitors walk over it on their way to the castle.'']"
  by (simp add: add_sentence_def Let_def length_js js_append js_Nil_iff bridge_parts2)

lemma bridge_trim3: "trim (js ''Sure. The old stone bridge crosses the river just north of the market square'') =
    js ''Sure. The old stone bridge crosses the river just north of the market square''"
  by (rule trim_js_id) (simp_all add: is_space_def)

lemma bridge_step3: "add_part
     ([js ''Sure.''],
      js ''Sure.'')
     (js ''The old stone bridge crosses the river just north of the market square'') =
     ([js ''Sure.''],
      js ''Sure. The old stone bridge crosses the river just north of the market square'')"
  by (simp add: add_part_def js_append js_Nil_iff bridge_trim3 length_js)

lemma bridge_trim4: "trim (js ''Sure. The old stone bridge crosses the river just north of the market square which is why the weekly fair has been held on the southern bank for years '') =
    js ''Sure. The old stone bridge crosses the river just north of the market square which is why the weekly fair has been held on the southern bank for years''"
proof -
  have "js ''Sure. The old stone bridge crosses the river just north of the market square which is why the weekly fair has been held on the southern bank for years '' =
    js ''Sure. The old stone bridge crosses the river just north of the market square which is why the weekly fair has been held on the southern bank for years'' @ [32]"
    by (simp add: js_def)
  moreover have "trim (js ''Sure. The old stone bridge crosses the river just north of the market square which is why the weekly fair has been held on the southern bank for years'') =
    js ''Sure. The old stone bridge crosses the river just north of the market square which is why the weekly fair has been held on the southern bank for years''"
    by (rule trim_js_id) (simp_all add: is_space_def)
  ultimately show ?thesis
    by (simp add: trim_snoc_space is_space_def)
qed

lemma bridge_step4: "add_part
     ([js ''Sure.''],
      js ''Sure. The old stone bridge crosses the river just north of the market square'')
     (js ''which is why the weekly fair has been held on the southern bank for years '') =
     ([js ''Sure.''],
      js ''Sure. The old stone bridge crosses the river just north of the market square which is why the weekly fair has been held on the southern bank for years '')"
  by (simp add: add_part_def js_append js_Nil_iff bridge_trim4 length_js)

lemma bridge_trim5: "trim (js ''Sure. The old stone bridge crosses the river just north of the market square which is why the weekly fair has been held on the southern bank for years  so most visitors walk over it on their way to the castle.'') =
    js ''Sure. The old stone bridge crosses the river just north of the market square which is why the weekly fair has been held on the southern bank for years  so most visitors walk over it on their way to the castle.''"
  by (rule trim_js_id) (simp_all add: is_space_def)

lemma bridge_step5: "add_part
     ([js ''Sure.''],
      js ''Sure. The old stone bridge crosses the river just north of the market square which is why the weekly fair has been held on the southern bank for years '')
     (js ''so most visitors walk over it on their way to the castle.'') =
     ([js ''Sure.'',
      js ''Sure. The old stone bridge crosses the river just north of the market square which is why the weekly fair has been held on the southern bank for years ''],
      js ''so most visitors walk over it on their way to the castle.'')"
  by (simp add: add_part_def js_append js_Nil_iff bridge_trim5 length_js)

lemma bridge_chunks: "splitIntoChunks bridge_text =
    [js ''Sure.'',
     js ''Sure. The old stone bridge crosses the river just north of the market square which is why the weekly fair has been held on the southern bank for years '',
     js ''so most visitors walk over it on their way to the castle.'']"
proof -
  have ne: "bridge_text \<noteq> []"
    by (simp add: bridge_text_def js_def)
  show ?thesis
    by (simp add: splitIntoChunks_def Let_def bridge_sanitize ne bridge_sentences js_Nil_iff
        bridge_step1 bridge_step2 bridge_step3 bridge_step4 bridge_step5)
qed








lemma committee_sanitize: "sanitizeForTTS committee_text = committee_text"
  by (simp add: committee_text_def sanitizeForTTS_def Let_def strip_name_prefix_def starts_with_ci_def
      trim_def is_space_def lower_ascii_def js_def)

lemma committee_sentences: "split_rx sentence_sep committee_text =
    [js ''Stop.'',
     js ''The committee that reviewed the proposal for the new bridge over the northern river decided after a long debate that the work should start in the first week of the coming spring season.'']"
  by (simp add: committee_text_def split_rx_def sentence_sep_def ws_run_def is_space_def js_def)

lemma committee_step1: "add_sentence
     ([],
      [])
     (js ''Stop.'') =
     ([],
      js ''Stop.'')"
  by (simp add: add_sentence_def Let_def length_js js_append js_Nil_iff)

lemma committee_parts2: "split_rx clause_sep
    (js ''The committee that reviewed the proposal for the new bridge over the northern river decided after a long debate that the work should start in the first week of the coming spring season.'') =
    [js ''The committee that reviewed the proposal for the new bridge over the northern river decided after a long debate that the work should start in the first week of the coming spring season.'']"
  by (simp add: split_rx_def clause_sep_def lit_ws_def ws_lit_ws_def ws_run_def starts_with_def
      is_space_def js_def)

lemma committee_step2: "add_sentence
     ([],
      js ''Stop.'')
     (js ''The committee that reviewed the proposal for the new bridge over the northern river decided after a long debate that the work should start in the first week of the coming spring season.'') =
     foldl add_part
     ([js ''Stop.''],
      js ''Stop.'')
     [js ''The committee that reviewed the proposal for the new bridge over the northern river decided after a long debate that the work should start in the first week of the coming spring season.'']"
  by (simp add: add_sentence_def Let_def length_js js_append js_Nil_iff committee_parts2)

lemma committee_trim3: "trim (js ''Stop. The committee that reviewed the proposal for the new bridge over the northern river decided after a long debate that the work should start in the first week of the coming spring season.'') =
    js ''Stop. The committee that reviewed the proposal for the new bridge over the northern river decided after a long debate that the work should start in the first week of the coming spring season.''"
  by (rule trim_js_id) (simp_all add: is_space_def)

lemma committee_step3: "add_part
     ([js ''Stop.''],
      js ''Stop.'')
     (js ''The committee that reviewed the proposal for the new bridge over the northern river decided after a long debate that the work should start in the first week of the coming spring season.'') =
     ([js ''Stop.'',
      js ''Stop.''],
      js ''The committee that reviewed the proposal for the new bridge over the northern river decided after a long debate that the work should start in the first week of the coming spring season.'')"
  by (simp add: add_part_def js_append js_Nil_iff committee_trim3 length_js)

lemma committee_chunks: "splitIntoChunks committee_text =
    [js ''Stop.'',
     js ''Stop.'',
     js ''The committee that reviewed the proposal for the new bridge over the northern river decided after a long debate that the work should start in the first week of the coming spring season.'']"
proof -
  have ne: "committee_text \<noteq> []"
    by (simp add: committee_text_def js_def)
  show ?thesis
    by (simp add: splitIntoChunks_def Let_def committee_sanitize ne committee_sentences js_Nil_iff
        committee_step1 committee_step2 committee_step3)
qed




subsection \<open>The pieces of a split\<close>

text \<open>A piece that \<open>split\<close> returns holds no match of the pattern, also when it is taken on its
  own: both patterns of the chunker match at a position of a longer string when they match
  there in a shorter one.\<close>

lemma split_loop_misses:
  "misses m prev (c # cs) \<Longrightarrow>
   split_loop m piece prev (c # cs) = split_loop m (piece @ [c]) (Some c) cs"
  by (simp add: misses_def split: option.splits)

lemma split_loop_hits:
  "\<not> misses m prev (c # cs) \<Longrightarrow>
   \<exists>n. split_loop m piece prev (c # cs) =
         piece # split_loop m [] (Some (last (take n (c # cs)))) (drop n (c # cs))"
  by (auto simp: misses_def split: option.splits)

lemma split_loop_nomatch: "nomatch m prev x [] \<Longrightarrow> split_loop m piece prev x = [piece @ x]"
proof (induction x arbitrary: piece prev)
  case Nil
  then show ?case by simp
next
  case (Cons c cs)
  then have a: "misses m prev (c # cs)" and b: "nomatch m (Some c) cs []"
    by simp_all
  from a have "split_loop m piece prev (c # cs) = split_loop m (piece @ [c]) (Some c) cs"
    by (rule split_loop_misses)
  also have "\<dots> = [(piece @ [c]) @ cs]"
    using b by (rule Cons.IH)
  finally show ?case by simp
qed

lemma nomatch_shorter:
  assumes "\<And>prev x b. misses m prev (x @ b) \<Longrightarrow> misses m prev x"
  shows "nomatch m prev x (b @ b') \<Longrightarrow> nomatch m prev x b"
proof (induction x arbitrary: prev)
  case Nil
  then show ?case by simp
next
  case (Cons c cs)
  then have "misses m prev ((c # cs @ b) @ b')" "nomatch m (Some c) cs (b @ b')"
    by simp_all
  then show ?case
    using assms[of prev "c # cs @ b" b'] Cons.IH by simp
qed

lemma nomatch_start:
  assumes "\<And>prev x. misses m prev x \<Longrightarrow> misses m None x"
  shows "nomatch m prev x b \<Longrightarrow> nomatch m None x b"
  using assms by (cases x) auto

lemma nomatch_suffix:
  "nomatch m prev (a @ y) b \<Longrightarrow> nomatch m (if a = [] then prev else Some (last a)) y b"
  by (induction a arbitrary: prev) (auto split: if_splits)

lemma nomatch_prefix: "nomatch m prev (y @ z) b \<Longrightarrow> nomatch m prev y (z @ b)"
  by (induction y arbitrary: prev) auto

lemma nomatch_snoc:
  "nomatch m pv piece (c # cs) \<Longrightarrow>
   misses m (if piece = [] then pv else Some (last piece)) (c # cs) \<Longrightarrow>
   nomatch m pv (piece @ [c]) cs"
  by (induction piece arbitrary: pv) (auto split: if_splits)

lemma split_loop_pieces_nomatch:
  assumes mono: "\<And>prev x b. misses m prev (x @ b) \<Longrightarrow> misses m prev x"
  shows "nomatch m pv piece s \<Longrightarrow> prev = (if piece = [] then pv else Some (last piece)) \<Longrightarrow>
         p \<in> set (split_loop m piece prev s) \<Longrightarrow> \<exists>q. nomatch m q p []"
proof (induction s arbitrary: piece prev pv rule: length_induct)
  case (1 s)
  show ?case
  proof (cases s)
    case Nil
    with 1 show ?thesis by auto
  next
    case (Cons c cs)
    show ?thesis
    proof (cases "misses m prev (c # cs)")
      case True
      then have "nomatch m pv (piece @ [c]) cs"
        using 1(2,3) nomatch_snoc by (simp add: Cons)
      moreover have "p \<in> set (split_loop m (piece @ [c]) (Some c) cs)"
        using 1(4) by (simp only: Cons split_loop_misses[OF True])
      ultimately show ?thesis
        using 1(1)[rule_format, of cs pv "piece @ [c]" "Some c"] by (simp add: Cons)
    next
      case False
      then obtain n where n: "split_loop m piece prev (c # cs) =
         piece # split_loop m [] (Some (last (take n (c # cs)))) (drop n (c # cs))" "n \<noteq> 0"
        by (auto simp: misses_def split: option.splits)
      from 1(4) n(1) consider "p = piece"
        | "p \<in> set (split_loop m [] (Some (last (take n (c # cs)))) (drop n (c # cs)))"
        by (auto simp: Cons)
      then show ?thesis
      proof cases
        case 1
        have "nomatch m pv piece []"
        proof (rule nomatch_shorter)
          show "\<And>prev x b. misses m prev (x @ b) \<Longrightarrow> misses m prev x"
            by (rule mono)
          show "nomatch m pv piece ([] @ s)"
            using \<open>nomatch m pv piece s\<close> by simp
        qed
        with 1 show ?thesis by blast
      next
        case 2
        have "length (drop n (c # cs)) < length s"
          using n(2) by (simp add: Cons)
        then show ?thesis
          using "1.IH"[rule_format, of "drop n (c # cs)" "Some (last (take n (c # cs)))" "[]"
              "Some (last (take n (c # cs)))"] 2
          by simp
      qed
    qed
  qed
qed

lemma split_loop_pieces_segment:
  "p \<in> set (split_loop m piece prev s) \<Longrightarrow> \<exists>a b. piece @ s = a @ p @ b"
proof (induction s arbitrary: piece prev rule: length_induct)
  case (1 s)
  show ?case
  proof (cases s)
    case Nil
    with 1(2) have "piece @ s = [] @ p @ []"
      by simp
    then show ?thesis by blast
  next
    case (Cons c cs)
    show ?thesis
    proof (cases "misses m prev (c # cs)")
      case True
      have "p \<in> set (split_loop m (piece @ [c]) (Some c) cs)"
        using 1(2) by (simp only: Cons split_loop_misses[OF True])
      then show ?thesis
        using "1.IH"[rule_format, of cs "piece @ [c]" "Some c"] by (simp add: Cons)
    next
      case False
      then obtain n where n: "split_loop m piece prev (c # cs) =
         piece # split_loop m [] (Some (last (take n (c # cs)))) (drop n (c # cs))" "n \<noteq> 0"
        by (auto simp: misses_def split: option.splits)
      from 1(2) n(1) consider "p = piece"
        | "p \<in> set (split_loop m [] (Some (last (take n (c # cs)))) (drop n (c # cs)))"
        by (auto simp: Cons)
      then show ?thesis
      proof cases
        case 1
        then have "piece @ s = [] @ p @ s"
          by simp
        then show ?thesis by blast
      next
        case 2
        have "length (drop n (c # cs)) < length s"
          using n(2) by (simp add: Cons)
        then obtain a b where "drop n (c # cs) = a @ p @ b"
          using "1.IH"[rule_format, of "drop n (c # cs)" "[]" "Some (last (take n (c # cs)))"] 2
          by auto
        then have "piece @ s = (piece @ take n (c # cs) @ a) @ p @ b"
          by (metis Cons append.assoc append_take_drop_id)
        then show ?thesis by blast
      qed
    qed
  qed
qed

lemma ws_run_None_iff: "ws_run x = None \<longleftrightarrow> x = [] \<or> \<not> is_space (hd x)"
  by (cases x) (simp_all add: ws_run_def Let_def)

lemma ws_run_Some: "ws_run x = Some n \<Longrightarrow> n = length (takeWhile is_space x) \<and> n \<noteq> 0"
  by (auto simp: ws_run_def Let_def split: if_splits)

lemma ws_run_shorter: "ws_run (x @ b) = None \<Longrightarrow> ws_run x = None"
  by (cases x) (simp_all add: ws_run_None_iff)

lemma misses_sentence_sep:
  "misses sentence_sep prev x \<longleftrightarrow> \<not> is_mark prev \<or> ws_run x = None"
  by (auto simp: misses_def sentence_sep_def is_mark_def dest: ws_run_Some split: option.splits)

lemma sentence_sep_shorter: "misses sentence_sep prev (x @ b) \<Longrightarrow> misses sentence_sep prev x"
  using ws_run_shorter[of x b] by (auto simp: misses_sentence_sep)

lemma sentence_sep_start: "misses sentence_sep prev x \<Longrightarrow> misses sentence_sep None x"
  by (simp add: misses_sentence_sep is_mark_def)

lemma lit_ws_Some: "lit_ws p x = Some n \<Longrightarrow> n \<noteq> 0"
  by (auto simp: lit_ws_def dest: ws_run_Some split: if_splits option.splits)

lemma lit_ws_None_iff:
  "lit_ws p x = None \<longleftrightarrow> \<not> starts_with p x \<or> ws_run (drop (length p) x) = None"
  by (simp add: lit_ws_def split: option.splits)

lemma starts_with_length: "starts_with p x \<Longrightarrow> length p \<le> length x"
  unfolding starts_with_def by (drule arg_cong[where f = length]) simp

lemma lit_ws_shorter:
  assumes "lit_ws p (x @ b) = None"
  shows "lit_ws p x = None"
proof (cases "starts_with p x")
  case True
  then have l: "length p \<le> length x"
    by (rule starts_with_length)
  with True have "starts_with p (x @ b)"
    by (simp add: starts_with_def)
  with assms have "ws_run (drop (length p) x @ b) = None"
    using l by (simp add: lit_ws_None_iff)
  then have "ws_run (drop (length p) x) = None"
    by (rule ws_run_shorter)
  then show ?thesis
    by (simp add: lit_ws_None_iff)
next
  case False
  then show ?thesis
    by (simp add: lit_ws_None_iff)
qed

lemma ws_lit_ws_Some: "ws_lit_ws p x = Some n \<Longrightarrow> n \<noteq> 0"
  by (auto simp: ws_lit_ws_def dest: ws_run_Some lit_ws_Some split: option.splits)

lemma takeWhile_short: "length (takeWhile P xs) < length xs \<Longrightarrow> \<exists>y\<in>set xs. \<not> P y"
  by (induction xs) (auto split: if_splits)

lemma ws_lit_ws_shorter:
  assumes "p \<noteq> []" "ws_lit_ws p (x @ b) = None"
  shows "ws_lit_ws p x = None"
proof (cases "ws_run x")
  case None
  then show ?thesis
    by (simp add: ws_lit_ws_def)
next
  case (Some a)
  then have a: "a = length (takeWhile is_space x)" "a \<noteq> 0"
    using ws_run_Some by blast+
  show ?thesis
  proof (cases "starts_with p (drop a x)")
    case False
    then have "lit_ws p (drop a x) = None"
      by (simp add: lit_ws_None_iff)
    then show ?thesis
      by (simp add: ws_lit_ws_def Some)
  next
    case True
    with assms(1) have "drop a x \<noteq> []"
      by (auto simp: starts_with_def)
    then have "length (takeWhile is_space x) < length x"
      using a(1) by simp
    then obtain y where "y \<in> set x" "\<not> is_space y"
      using takeWhile_short by blast
    then have "takeWhile is_space (x @ b) = takeWhile is_space x"
      by simp
    then have r: "ws_run (x @ b) = Some a"
      using Some by (simp add: ws_run_def)
    have "a \<le> length x"
      using a(1) by (simp add: length_takeWhile_le)
    then have "drop a (x @ b) = drop a x @ b"
      by simp
    with assms(2) r have "lit_ws p (drop a x @ b) = None"
      by (simp add: ws_lit_ws_def split: option.splits)
    then have "lit_ws p (drop a x) = None"
      by (rule lit_ws_shorter)
    then show ?thesis
      by (simp add: ws_lit_ws_def Some)
  qed
qed

lemma clause_sep_Some: "clause_sep prev x = Some n \<Longrightarrow> n \<noteq> 0"
  by (auto simp: clause_sep_def dest: lit_ws_Some ws_lit_ws_Some split: option.splits)

lemma misses_clause_sep: "misses clause_sep prev x \<longleftrightarrow> clause_sep prev x = None"
  using clause_sep_Some[of prev x] by (auto simp: misses_def split: option.splits)

lemma clause_sep_None:
  "clause_sep prev x = None \<longleftrightarrow>
     lit_ws (js '','') x = None \<and> lit_ws (js '';'') x = None \<and>
     ws_lit_ws (js ''and'') x = None \<and> ws_lit_ws (js ''but'') x = None"
  by (auto simp: clause_sep_def split: option.splits)

lemma clause_sep_shorter: "misses clause_sep prev (x @ b) \<Longrightarrow> misses clause_sep prev x"
proof -
  have ne: "js ''and'' \<noteq> []" "js ''but'' \<noteq> []"
    by (simp_all add: js_def)
  assume "misses clause_sep prev (x @ b)"
  then have "lit_ws (js '','') (x @ b) = None" "lit_ws (js '';'') (x @ b) = None"
    "ws_lit_ws (js ''and'') (x @ b) = None" "ws_lit_ws (js ''but'') (x @ b) = None"
    by (simp_all add: misses_clause_sep clause_sep_None)
  then have "lit_ws (js '','') x = None" "lit_ws (js '';'') x = None"
    "ws_lit_ws (js ''and'') x = None" "ws_lit_ws (js ''but'') x = None"
    using lit_ws_shorter ws_lit_ws_shorter[OF ne(1)] ws_lit_ws_shorter[OF ne(2)] by blast+
  then show ?thesis
    by (simp add: misses_clause_sep clause_sep_None)
qed

lemma clause_sep_start: "misses clause_sep prev x \<Longrightarrow> misses clause_sep None x"
  by (simp add: misses_clause_sep clause_sep_None)

lemma split_rx_unsplit:
  assumes "\<And>prev x. misses m prev x \<Longrightarrow> misses m None x" "nomatch m q p []"
  shows "split_rx m p = [p]"
proof -
  have "nomatch m None p []"
  proof (rule nomatch_start)
    show "\<And>prev x. misses m prev x \<Longrightarrow> misses m None x"
      by (rule assms(1))
    show "nomatch m q p []"
      by (rule assms(2))
  qed
  then show ?thesis
    by (simp add: split_rx_def split_loop_nomatch)
qed

lemma clause_part_atomic:
  assumes "p \<in> set (split_rx clause_sep s)"
  shows "split_rx clause_sep p = [p]"
proof -
  have "\<exists>q. nomatch clause_sep q p []"
  proof (rule split_loop_pieces_nomatch)
    show "\<And>prev x b. misses clause_sep prev (x @ b) \<Longrightarrow> misses clause_sep prev x"
      by (rule clause_sep_shorter)
    show "nomatch clause_sep None [] s"
      by simp
    show "None = (if ([]::jsstring) = [] then None else Some (last []))"
      by simp
    show "p \<in> set (split_loop clause_sep [] None s)"
      using assms by (simp add: split_rx_def)
  qed
  then obtain q where "nomatch clause_sep q p []"
    by blast
  then show ?thesis
    by (rule split_rx_unsplit[rotated]) (rule clause_sep_start)
qed

lemma sentence_part_atomic:
  assumes "s \<in> set (split_rx sentence_sep t)" "p \<in> set (split_rx clause_sep s)"
  shows "split_rx sentence_sep p = [p]"
proof -
  have "\<exists>q. nomatch sentence_sep q s []"
  proof (rule split_loop_pieces_nomatch)
    show "\<And>prev x b. misses sentence_sep prev (x @ b) \<Longrightarrow> misses sentence_sep prev x"
      by (rule sentence_sep_shorter)
    show "nomatch sentence_sep None [] t"
      by simp
    show "None = (if ([]::jsstring) = [] then None else Some (last []))"
      by simp
    show "s \<in> set (split_loop sentence_sep [] None t)"
      using assms(1) by (simp add: split_rx_def)
  qed
  then obtain q where q: "nomatch sentence_sep q s []"
    by blast
  obtain a b where ab: "s = a @ p @ b"
    using split_loop_pieces_segment[of p clause_sep "[]" None s] assms(2)
    by (auto simp: split_rx_def)
  from q have "nomatch sentence_sep (if a = [] then q else Some (last a)) (p @ b) []"
    unfolding ab by (rule nomatch_suffix)
  then have "nomatch sentence_sep (if a = [] then q else Some (last a)) p (b @ [])"
    by (rule nomatch_prefix)
  then have "nomatch sentence_sep (if a = [] then q else Some (last a)) p ([] @ b)"
    by simp
  then have "nomatch sentence_sep (if a = [] then q else Some (last a)) p []"
    by (rule nomatch_shorter[rotated]) (rule sentence_sep_shorter)
  then show ?thesis
    by (rule split_rx_unsplit[rotated]) (rule sentence_sep_start)
qed

subsection \<open>The length of a chunk\<close>

lemma splitIntoChunks_flush:
  "splitIntoChunks text =
     (if sanitizeForTTS text = [] then []
      else flush (foldl add_sentence ([], []) (sentences_of text)))"
  by (simp add: splitIntoChunks_def sentences_of_def flush_def Let_def)


lemma add_part_bounded:
  assumes "bounded_state ss st" "s \<in> set ss" "length s > 150" "p \<in> set (split_rx clause_sep s)"
  shows "bounded_state ss (add_part st p)"
proof -
  obtain chunks current where st: "st = (chunks, current)"
    by (cases st)
  have p: "within_bound ss p"
    using assms(2-4) by (auto simp: within_bound_def)
  show ?thesis
  proof (cases "length (trim (current @ js '' '' @ p)) \<le> 150")
    case True
    then show ?thesis
      using assms(1) by (auto simp: st add_part_def bounded_state_def within_bound_def trim_leading_space)
  next
    case False
    then show ?thesis
      using assms(1) p by (auto simp: st add_part_def bounded_state_def)
  qed
qed

lemma foldl_add_part_bounded:
  assumes "s \<in> set ss" "length s > 150"
  shows "bounded_state ss st \<Longrightarrow> set ps \<subseteq> set (split_rx clause_sep s) \<Longrightarrow>
         bounded_state ss (foldl add_part st ps)"
proof (induction ps arbitrary: st)
  case Nil
  then show ?case by simp
next
  case (Cons p ps)
  then show ?case
    using add_part_bounded[OF _ assms, of st p] by simp
qed

lemma add_sentence_bounded:
  assumes "bounded_state ss st" "s \<in> set ss"
  shows "bounded_state ss (add_sentence st s)"
proof -
  obtain chunks current where st: "st = (chunks, current)"
    by (cases st)
  let ?candidate = "if current \<noteq> [] then current @ js '' '' @ s else s"
  let ?chunks1 = "if current \<noteq> [] then chunks @ [current] else chunks"
  have c1: "bounded_state ss (?chunks1, current)"
    using assms(1) by (auto simp: st bounded_state_def)
  show ?thesis
  proof (cases "length ?candidate \<le> 150")
    case True
    then have "within_bound ss ?candidate"
      using length_trim_le[of ?candidate] by (simp add: within_bound_def)
    with True show ?thesis
      using assms(1) by (simp add: st add_sentence_def Let_def bounded_state_def)
  next
    case False
    show ?thesis
    proof (cases "length s \<le> 150")
      case True
      then have "within_bound ss s"
        using length_trim_le[of s] by (simp add: within_bound_def)
      with True False c1 show ?thesis
        by (simp add: st add_sentence_def Let_def bounded_state_def)
    next
      case long: False
      then have "bounded_state ss (foldl add_part (?chunks1, current) (split_rx clause_sep s))"
        using foldl_add_part_bounded[OF assms(2) _ c1, of "split_rx clause_sep s"] by simp
      with False long show ?thesis
        by (simp add: st add_sentence_def Let_def)
    qed
  qed
qed

lemma foldl_add_sentence_bounded:
  "bounded_state ss st \<Longrightarrow> set xs \<subseteq> set ss \<Longrightarrow> bounded_state ss (foldl add_sentence st xs)"
  by (induction xs arbitrary: st) (simp_all add: add_sentence_bounded)

lemma flush_bounded: "bounded_state ss st \<Longrightarrow> \<forall>c\<in>set (flush st). within_bound ss c"
  by (cases st) (auto simp: flush_def bounded_state_def)


text \<open>
  Claim C6. For every input text, every chunk that \<open>splitIntoChunks\<close> returns has at most 150
  code units once its leading and trailing white space is removed, except a chunk that is a
  single part of a sentence of more than 150 code units, with no match of the pattern for
  sentence boundaries and no match of the pattern for commas, semicolons, \<open>and\<close> and \<open>but\<close>
  inside it, and itself exceeds the bound.
\<close>

theorem splitIntoChunks_bound:
  "\<forall>c\<in>set (splitIntoChunks text).
     length (trim c) \<le> 150 \<or>
     ((\<exists>s\<in>set (sentences_of text). length s > 150 \<and> c \<in> set (split_rx clause_sep s)) \<and>
      split_rx sentence_sep c = [c] \<and> split_rx clause_sep c = [c] \<and>
      length (trim c) > 150)"
proof -
  have "bounded_state (sentences_of text) ([], [])"
    by (simp add: bounded_state_def)
  then have "bounded_state (sentences_of text) (foldl add_sentence ([], []) (sentences_of text))"
    by (rule foldl_add_sentence_bounded) simp
  then have b: "\<forall>c\<in>set (splitIntoChunks text). within_bound (sentences_of text) c"
    using flush_bounded by (simp add: splitIntoChunks_flush)
  show ?thesis
  proof
    fix c
    assume "c \<in> set (splitIntoChunks text)"
    with b have w: "within_bound (sentences_of text) c"
      by blast
    show "length (trim c) \<le> 150 \<or>
     ((\<exists>s\<in>set (sentences_of text). length s > 150 \<and> c \<in> set (split_rx clause_sep s)) \<and>
      split_rx sentence_sep c = [c] \<and> split_rx clause_sep c = [c] \<and>
      length (trim c) > 150)"
    proof (cases "length (trim c) \<le> 150")
      case True
      then show ?thesis by simp
    next
      case False
      with w obtain s where s: "s \<in> set (sentences_of text)" "length s > 150"
        "c \<in> set (split_rx clause_sep s)"
        by (auto simp: within_bound_def)
      from s(1) have "s \<in> set (split_rx sentence_sep (sanitizeForTTS text))"
        by (simp add: sentences_of_def)
      then have "split_rx sentence_sep c = [c]"
        using s(3) by (rule sentence_part_atomic)
      moreover have "split_rx clause_sep c = [c]"
        using s(3) by (rule clause_part_atomic)
      ultimately show ?thesis
        using s False by auto
    qed
  qed
qed

text \<open>The sentence about the committee has 185 code units and no place where the inner loop
  cuts it, so it is a chunk of its own (after \<open>Stop.\<close>, which comes twice).\<close>

theorem splitIntoChunks_bound_witness:
  "splitIntoChunks committee_text = [js ''Stop.'', js ''Stop.'', committee_sentence] \<and>
   sentences_of committee_text = [js ''Stop.'', committee_sentence] \<and>
   length (trim committee_sentence) = 185 \<and>
   (\<exists>s\<in>set (sentences_of committee_text).
      length s > 150 \<and> committee_sentence \<in> set (split_rx clause_sep s)) \<and>
   split_rx sentence_sep committee_sentence = [committee_sentence] \<and>
   split_rx clause_sep committee_sentence = [committee_sentence]"
proof -
  have c: "splitIntoChunks committee_text = [js ''Stop.'', js ''Stop.'', committee_sentence]"
    by (simp add: committee_chunks committee_sentence_def)
  have s: "sentences_of committee_text = [js ''Stop.'', committee_sentence]"
    by (simp add: sentences_of_def committee_sanitize committee_sentences js_Nil_iff
        committee_sentence_def)
  have "trim committee_sentence = committee_sentence"
    unfolding committee_sentence_def by (rule trim_js_id) (simp_all add: is_space_def)
  then have l: "length (trim committee_sentence) = 185"
    by (simp add: committee_sentence_def length_js)
  have m: "committee_sentence \<in> set (splitIntoChunks committee_text)"
    by (simp add: c)
  from bspec[OF splitIntoChunks_bound m] l
  have e: "(\<exists>s\<in>set (sentences_of committee_text).
              length s > 150 \<and> committee_sentence \<in> set (split_rx clause_sep s)) \<and>
           split_rx sentence_sep committee_sentence = [committee_sentence] \<and>
           split_rx clause_sep committee_sentence = [committee_sentence]"
    by simp
  from c s l e show ?thesis
    by blast
qed

text \<open>
  Against the wording of claim C6 with the length of the chunk as it is returned: the second
  chunk of this reply has 151 code units, and it holds the whole first sentence and the
  beginning of the second. The inner loop measures the running chunk without its outer
  white space and stores it with it (the part \<open>... for years\<close> ends with a space, since the
  text has a space before the comma); and on the way into the inner loop the running chunk
  \<open>Sure.\<close>, which has just been pushed, is kept.
\<close>

theorem splitIntoChunks_chunk_over_bound:
  "sanitizeForTTS bridge_text = bridge_text \<and>
   splitIntoChunks bridge_text =
     [js ''Sure.'', bridge_chunk,
      js ''so most visitors walk over it on their way to the castle.''] \<and>
   length bridge_chunk = 151 \<and>
   length (trim bridge_chunk) = 150 \<and>
   split_rx sentence_sep bridge_chunk =
     [js ''Sure.'',
      js ''The old stone bridge crosses the river just north of the market square which is why the weekly fair has been held on the southern bank for years '']"
proof -
  have a: "split_rx sentence_sep bridge_chunk =
     [js ''Sure.'',
      js ''The old stone bridge crosses the river just north of the market square which is why the weekly fair has been held on the southern bank for years '']"
    by (simp add: bridge_chunk_def split_rx_def sentence_sep_def ws_run_def is_space_def js_def)
  have l: "length bridge_chunk = 151" "length (trim bridge_chunk) = 150"
    by (simp_all add: bridge_chunk_def bridge_trim4 length_js)
  have c: "splitIntoChunks bridge_text =
     [js ''Sure.'', bridge_chunk,
      js ''so most visitors walk over it on their way to the castle.'']"
    by (simp add: bridge_chunks bridge_chunk_def)
  show ?thesis
    by (simp add: bridge_sanitize a l c)
qed

subsection \<open>The chunks put together again\<close>



lemma join_eq_Nil: "join sep xs = [] \<Longrightarrow> \<forall>x\<in>set xs. x \<noteq> [] \<Longrightarrow> xs = []"
  by (induction sep xs rule: join.induct) simp_all


































end
